theory Spec2Isabelle
  imports Complex_Main "HOL-Library.Multiset" "HOL-Library.AList" "HOL-Library.Log_Nat"
begin

section \<open>JavaScript numbers\<close>

text \<open>
  A number is an IEEE 754 double: a finite value, given here by the rational it stands for
  (the two zeros are not told apart), an infinity, or NaN. A finite double is a multiple of
  \<open>2 ^ (e - 52)\<close> between \<open>2 ^ e\<close> and \<open>2 ^ (e + 1)\<close>, of \<open>2 ^ - 1074\<close> below \<open>2 ^ - 1022\<close>,
  and is below \<open>2 ^ 1024\<close> in magnitude.
\<close>

datatype number = Fin rat | PosInfinity | NegInfinity | NaN

text \<open>The exponent \<open>e\<close> with \<open>2 ^ e \<le> \<bar>x\<bar> < 2 ^ (e + 1)\<close>, for \<open>x\<close> other than 0.\<close>

definition log2floor :: "rat \<Rightarrow> int" where
  "log2floor x =
     (if 1 \<le> \<bar>x\<bar> then bitlen \<lfloor>\<bar>x\<bar>\<rfloor> - 1 else - bitlen (\<lceil>1 / \<bar>x\<bar>\<rceil> - 1))"

text \<open>Rounding to the nearest integer, a tie to the even one.\<close>

definition roundHalfEven :: "rat \<Rightarrow> int" where
  "roundHalfEven q =
     (let f = \<lfloor>q\<rfloor>; r = q - of_int f in
      if r < 1 / 2 then f else if 1 / 2 < r then f + 1 else if even f then f else f + 1)"

text \<open>
  The double that an exact result is rounded to (round to nearest, ties to even): the
  nearest multiple of the spacing at \<open>x\<close>, an infinity when that reaches \<open>2 ^ 1024\<close>.
\<close>

definition roundDouble :: "rat \<Rightarrow> number" where
  "roundDouble x =
     (if x = 0 then Fin 0
      else
        let e = max (log2floor x - 52) (- 1074);
            y = of_int (roundHalfEven (x / 2 powi e)) * 2 powi e
        in if 2 ^ 1024 \<le> y then PosInfinity
           else if y \<le> - (2 ^ 1024) then NegInfinity
           else Fin y)"

text \<open>\<^verbatim>\<open>a + b\<close> on numbers.\<close>

fun numAdd :: "number \<Rightarrow> number \<Rightarrow> number" where
  "numAdd (Fin a) (Fin b) = roundDouble (a + b)"
| "numAdd NaN _ = NaN"
| "numAdd _ NaN = NaN"
| "numAdd PosInfinity NegInfinity = NaN"
| "numAdd NegInfinity PosInfinity = NaN"
| "numAdd PosInfinity _ = PosInfinity"
| "numAdd _ PosInfinity = PosInfinity"
| "numAdd NegInfinity _ = NegInfinity"
| "numAdd _ NegInfinity = NegInfinity"

text \<open>\<^verbatim>\<open>a * 7\<close> and \<^verbatim>\<open>-a\<close> on numbers.\<close>

fun numTimes7 :: "number \<Rightarrow> number" where
  "numTimes7 (Fin a) = roundDouble (a * 7)"
| "numTimes7 a = a"

fun numNeg :: "number \<Rightarrow> number" where
  "numNeg (Fin a) = Fin (- a)"
| "numNeg PosInfinity = NegInfinity"
| "numNeg NegInfinity = PosInfinity"
| "numNeg NaN = NaN"

text \<open>\<^verbatim>\<open>a === b\<close> on numbers: NaN is equal to nothing, not to itself either.\<close>

fun strictEq :: "number \<Rightarrow> number \<Rightarrow> bool" where
  "strictEq NaN _ = False"
| "strictEq _ NaN = False"
| "strictEq a b = (a = b)"

text \<open>
  The integer part of a number, towards zero: \<^verbatim>\<open>Math.floor\<close> of a positive number and
  \<^verbatim>\<open>Math.ceil\<close> of a negative one.
\<close>

definition truncRat :: "rat \<Rightarrow> int" where
  "truncRat q = (if q < 0 then \<lceil>q\<rceil> else \<lfloor>q\<rfloor>)"

fun numTrunc :: "number \<Rightarrow> number" where
  "numTrunc (Fin q) = Fin (of_int (truncRat q))"
| "numTrunc a = a"

section \<open>JavaScript values and objects\<close>

text \<open>
  The values a field of a duration object or of a patch can hold: \<^verbatim>\<open>undefined\<close> (also what
  reading an absent key gives), \<^verbatim>\<open>null\<close>, a number, the empty string, a \<^verbatim>\<open>Date\<close> with its
  time value in milliseconds since the epoch (an integer of at most 8640000000000000 in
  magnitude), and the Invalid Date, whose time value is NaN. Non-empty strings are not
  modelled: a date is a \<^verbatim>\<open>Date\<close> object.
\<close>

datatype jsval =
    JUndefined
  | JNull
  | JNum number
  | JEmptyString
  | JDate int
  | JInvalidDate

text \<open>
  An object is its list of (key, value) entries; \<^verbatim>\<open>o[k]\<close> reads the entry of \<open>k\<close> and is
  \<^verbatim>\<open>undefined\<close> when there is none; \<^verbatim>\<open>Object.keys(o)\<close> are the distinct keys.
\<close>

type_synonym obj = "(string \<times> jsval) list"

definition get :: "obj \<Rightarrow> string \<Rightarrow> jsval" where
  "get ob k = (case map_of ob k of None \<Rightarrow> JUndefined | Some v \<Rightarrow> v)"

definition keys :: "obj \<Rightarrow> string list" where
  "keys ob = remdups (map fst ob)"

text \<open>Truthiness, as \<^verbatim>\<open>if (v)\<close>, \<^verbatim>\<open>!v\<close> and \<^verbatim>\<open>a && b\<close> test it: 0 and NaN are falsy.\<close>

fun truthy :: "jsval \<Rightarrow> bool" where
  "truthy JUndefined = False"
| "truthy JNull = False"
| "truthy (JNum n) = (n \<noteq> Fin 0 \<and> n \<noteq> NaN)"
| "truthy JEmptyString = False"
| "truthy (JDate t) = True"
| "truthy JInvalidDate = True"

text \<open>\<^verbatim>\<open>Number(v)\<close>.\<close>

fun toNumber :: "jsval \<Rightarrow> number" where
  "toNumber JUndefined = NaN"
| "toNumber JNull = Fin 0"
| "toNumber (JNum n) = n"
| "toNumber JEmptyString = Fin 0"
| "toNumber (JDate t) = Fin (of_int t)"
| "toNumber JInvalidDate = NaN"

text \<open>
  \<^verbatim>\<open>TimeClip\<close>: a time value is kept when it is at most 8640000000000000 in magnitude, and
  is NaN (\<open>None\<close>) otherwise. \<open>dateOf\<close> is the \<^verbatim>\<open>Date\<close> with a clipped time value.
\<close>

definition maxTime :: int where
  "maxTime = 8640000000000000"

definition timeClip :: "int \<Rightarrow> int option" where
  "timeClip t = (if \<bar>t\<bar> \<le> maxTime then Some t else None)"

fun dateOf :: "int option \<Rightarrow> jsval" where
  "dateOf (Some t) = JDate t"
| "dateOf None = JInvalidDate"

text \<open>
  \<^verbatim>\<open>new Date(v)\<close>: a copy of a date; for a number, the date of its integer part, clipped;
  the epoch for \<^verbatim>\<open>null\<close>; Invalid Date otherwise.
\<close>

fun newDate :: "jsval \<Rightarrow> jsval" where
  "newDate JUndefined = JInvalidDate"
| "newDate JNull = JDate 0"
| "newDate (JNum (Fin q)) = dateOf (timeClip (truncRat q))"
| "newDate (JNum n) = JInvalidDate"
| "newDate JEmptyString = JInvalidDate"
| "newDate (JDate t) = JDate t"
| "newDate JInvalidDate = JInvalidDate"

text \<open>\<^verbatim>\<open>d.getTime()\<close> of a \<^verbatim>\<open>Date\<close> \<open>d\<close>; \<open>None\<close> is NaN.\<close>

fun getTime :: "jsval \<Rightarrow> int option" where
  "getTime (JDate t) = Some t"
| "getTime _ = None"

section \<open>Local time and date-fns\<close>

text \<open>
  The time zone of the process, as the language uses it: \<open>localOffset z t\<close> is the offset of
  local time from UTC at the time value \<open>t\<close> (\<^verbatim>\<open>LocalTZA(t, true)\<close>), \<open>utcOffset z l\<close> the
  offset that takes the local time value \<open>l\<close> back to UTC (\<^verbatim>\<open>LocalTZA(l, false)\<close>), both in
  milliseconds.
\<close>

record zone =
  localOffset :: "int \<Rightarrow> int"
  utcOffset :: "int \<Rightarrow> int"

definition localTime :: "zone \<Rightarrow> int \<Rightarrow> int" where
  "localTime z t = t + localOffset z t"

definition utcTime :: "zone \<Rightarrow> int \<Rightarrow> int" where
  "utcTime z l = l - utcOffset z l"

definition msPerDay :: int where
  "msPerDay = 24 * 60 * 60 * 1000"

text \<open>
  The library is a dependency (package.json: date-fns 2.16), not part of the repository; it
  is modelled after its functions \<^verbatim>\<open>toInteger\<close>, \<^verbatim>\<open>addDays\<close>, \<^verbatim>\<open>addWeeks\<close> and
  \<^verbatim>\<open>subWeeks\<close>, and \<^verbatim>\<open>setDate\<close> after the language. \<^verbatim>\<open>toInteger\<close> is NaN for
  \<^verbatim>\<open>null\<close> and the integer part of \<^verbatim>\<open>Number(v)\<close> otherwise. \<^verbatim>\<open>addDays(d, n)\<close> is
  Invalid Date when \<open>n\<close> is NaN, the date itself when \<open>n\<close> is 0, and otherwise
  \<^verbatim>\<open>d.setDate(d.getDate() + n)\<close>: the local time of \<open>d\<close> moved by \<open>n\<close> days of 86400000
  ms, taken back to UTC and clipped (Invalid Date when \<open>d\<close> is, or \<open>n\<close> is infinite).
  \<^verbatim>\<open>addWeeks(d, n)\<close> is \<^verbatim>\<open>addDays(d, toInteger(n) * 7)\<close>, the product rounded as a
  double, and \<^verbatim>\<open>subWeeks(d, n)\<close> is \<^verbatim>\<open>addWeeks(d, -toInteger(n))\<close>. The sum of the local
  time and the days is exact here: for a date within the range and offsets below a day, a
  sum that the doubles of the language would round (one beyond \<open>2 ^ 53\<close>) is beyond the
  clip either way.
\<close>

fun toInteger :: "jsval \<Rightarrow> number" where
  "toInteger JNull = NaN"
| "toInteger v = numTrunc (toNumber v)"

definition addDays :: "zone \<Rightarrow> jsval \<Rightarrow> jsval \<Rightarrow> jsval" where
  "addDays z d amount =
     (let date = newDate d; n = toInteger amount in
      if n = NaN then JInvalidDate
      else if n = Fin 0 then date
      else
        (case (getTime date, n) of
           (Some t, Fin q) \<Rightarrow> dateOf (timeClip (utcTime z (localTime z t + truncRat q * msPerDay)))
         | _ \<Rightarrow> JInvalidDate))"

definition addWeeks :: "zone \<Rightarrow> jsval \<Rightarrow> jsval \<Rightarrow> jsval" where
  "addWeeks z d amount = addDays z d (JNum (numTimes7 (toInteger amount)))"

definition subWeeks :: "zone \<Rightarrow> jsval \<Rightarrow> jsval \<Rightarrow> jsval" where
  "subWeeks z d amount = addWeeks z d (JNum (numNeg (toInteger amount)))"

section \<open>helper.js: calculateDuration\<close>

datatype error = BadRequestError string | NotFoundError string

definition rangeError :: error where
  "rangeError = BadRequestError ''end date must be one or multiple weeks ahead of start date''"

definition conflictError :: error where
  "conflictError =
     BadRequestError ''duration not match with the actual duration bwteen startDate and endDate''"

definition msPerWeek :: int where
  "msPerWeek = 7 * 24 * 60 * 60 * 1000"

text \<open>
  \<^verbatim>\<open>actualDuration\<close> of the third branch: \<^verbatim>\<open>diffDate\<close> is the \<^verbatim>\<open>Date\<close> of the difference of
  the two time values, so a difference beyond the clip is Invalid Date, and
  \<^verbatim>\<open>diffDate.getTime()\<close> is divided by one week; \<open>None\<close> is NaN. The difference and the
  quotient are exact here. A difference that the doubles round is beyond the clip either
  way; and for a time value \<open>d\<close> within the clip the double quotient is an integer exactly
  when the exact one is, to which it is then equal: otherwise the exact quotient is at least
  \<open>1 / 604800000\<close> away from every integer, more than half the spacing of the doubles below
  \<open>2 ^ 24\<close>. \<^verbatim>\<open>Number.isInteger\<close> holds of a quotient that is a whole number.
\<close>

definition actualDuration :: "jsval \<Rightarrow> jsval \<Rightarrow> rat option" where
  "actualDuration startDate endDate =
     (case (getTime (newDate endDate), getTime (newDate startDate)) of
        (Some e, Some s) \<Rightarrow>
          (case getTime (dateOf (timeClip (e - s))) of
             Some d \<Rightarrow> Some (of_int d / of_int msPerWeek)
           | None \<Rightarrow> None)
      | _ \<Rightarrow> None)"

definition isInteger :: "rat \<Rightarrow> bool" where
  "isInteger q = (of_int \<lfloor>q\<rfloor> = q)"

definition triple :: "jsval \<Rightarrow> jsval \<Rightarrow> jsval \<Rightarrow> obj" where
  "triple startDate endDate duration =
     [(''startDate'', startDate), (''endDate'', endDate), (''duration'', duration)]"

text \<open>
  The function destructures its argument, so only the three fields are read. Both throws
  are a \<^verbatim>\<open>BadRequestError\<close>, told apart by their messages. The comparison
  \<^verbatim>\<open>actualDuration !== duration\<close> is strict: it holds unless \<open>duration\<close> is that number.
\<close>

definition calculateDuration :: "zone \<Rightarrow> obj \<Rightarrow> error + obj" where
  "calculateDuration z input =
     (let startDate = get input ''startDate'';
          endDate = get input ''endDate'';
          duration = get input ''duration''
      in
        if truthy startDate \<and> \<not> truthy endDate \<and> truthy duration then
          Inr (triple startDate (addWeeks z (newDate startDate) duration) duration)
        else if \<not> truthy startDate \<and> truthy endDate \<and> truthy duration then
          Inr (triple (subWeeks z (newDate endDate) duration) endDate duration)
        else if truthy startDate \<and> truthy endDate then
          (case actualDuration startDate endDate of
             None \<Rightarrow> Inl rangeError
           | Some q \<Rightarrow>
               if \<not> isInteger q \<or> q < 1 then Inl rangeError
               else if truthy duration \<and> JNum (Fin (of_int \<lfloor>q\<rfloor>)) \<noteq> duration
               then Inl conflictError
               else Inr (triple startDate endDate (JNum (Fin (of_int \<lfloor>q\<rfloor>)))))
        else Inr [])"

section \<open>helper.js: updateDuration\<close>

definition durationFields :: "string list" where
  "durationFields = [''startDate'', ''endDate'', ''duration'']"

text \<open>
  The first \<^verbatim>\<open>_.reduce\<close>: a field is pushed when its patch value is truthy and is not
  \<^verbatim>\<open>_.isEqual\<close> to the original's. On the values of the model \<^verbatim>\<open>_.isEqual\<close> is equality:
  numbers by value (NaN equal to NaN there), dates by time value, and no value of one kind
  equals one of another.
\<close>

definition modifiedFields :: "obj \<Rightarrow> obj \<Rightarrow> string list" where
  "modifiedFields original data =
     foldl (\<lambda>result field.
              if truthy (get data field) \<and> get data field \<noteq> get original field
              then result @ [field] else result)
       [] durationFields"

text \<open>
  The second \<^verbatim>\<open>_.reduce\<close>, of the branch \<^verbatim>\<open>fieldsCount === 1\<close>: the object with the three
  fields, the first modified one from the patch and the others from the original.
\<close>

definition mergeField :: "obj \<Rightarrow> obj \<Rightarrow> string \<Rightarrow> obj" where
  "mergeField original data modified =
     foldl (\<lambda>result field.
              if modified = field then result @ [(field, get data field)]
              else result @ [(field, get original field)])
       [] durationFields"

text \<open>
  The result is \<open>Inl\<close> an error thrown by \<open>calculateDuration\<close>, \<open>Inr (Some r)\<close> a returned
  object, or \<open>Inr None\<close>: the function falls off its end and returns \<^verbatim>\<open>undefined\<close>.
  \<^verbatim>\<open>modifiedFields[0]\<close> is read only where the list is not empty.
\<close>

definition updateDuration :: "zone \<Rightarrow> obj \<Rightarrow> obj \<Rightarrow> error + obj option" where
  "updateDuration z original data =
     (let modified = modifiedFields original data in
      if length modified = 0 then Inr (Some [])
      else
        let fieldsCount = length (keys data) in
        if fieldsCount = 1 then
          map_sum id Some (calculateDuration z (mergeField original data (hd modified)))
        else if fieldsCount > 1 then
          map_sum id Some (calculateDuration z data)
        else Inr None)"

section \<open>WorkPeriodPaymentEventHandler.js\<close>

text \<open>
  A work period as \<^verbatim>\<open>toJSON\<close> gives it: the derived payment fields, the attribute
  \<open>resourceBookingId\<close> that the handler reads, \<open>daysWorked\<close> standing for the attributes it
  does not read, and, when it was loaded \<^verbatim>\<open>withPayments\<close>, its payments. The id of a period
  is the key it is stored under. The days and the amount of a payment, and the two sums, are
  numbers of the language.
\<close>

record payment =
  workPeriodId :: string
  status :: string
  days :: number
  amount :: number

record paymentData =
  daysPaid :: number
  paymentTotal :: number
  paymentStatus :: string

record workPeriod = paymentData +
  resourceBookingId :: string
  daysWorked :: number

record workPeriodJSON = workPeriod +
  payments :: "payment list"

text \<open>
  What the handler takes from outside this file: the list \<^verbatim>\<open>ActiveWorkPeriodPaymentStatuses\<close>
  of app-constants, the topic name of the configuration, and
  \<^verbatim>\<open>helper.calculateWorkPeriodPaymentStatus\<close>, which the handler calls and helper.js does not
  define: a parameter here, any function of the period it is given.
\<close>

record env =
  ActiveWorkPeriodPaymentStatuses :: "string list"
  TAAS_WORK_PERIOD_UPDATE_TOPIC :: string
  calculateWorkPeriodPaymentStatus :: "workPeriodJSON \<Rightarrow> string"

record options =
  oldValue :: workPeriodJSON
  key :: string

text \<open>
  The state the handler acts on: the stored work periods by id and the stored payments, the
  calls of \<^verbatim>\<open>update\<close> made on a period (its id and the \<^verbatim>\<open>data\<close> passed), and what
  \<^verbatim>\<open>helper.postEvent\<close> has sent: the message for the bus (topic and payload; originator,
  timestamp and mime-type are left out) and the event handed to the dispatcher (topic,
  payload, options).
\<close>

record state =
  workPeriods :: "(string \<times> workPeriod) list"
  workPeriodPayments :: "payment list"
  updates :: "(string \<times> paymentData) list"
  bus :: "(string \<times> workPeriod) list"
  dispatched :: "(string \<times> workPeriod \<times> options) list"

text \<open>
  Modelled from the spec: \<^verbatim>\<open>WorkPeriod.findById(id, { withPayments: true })\<close> is of the
  models, which are not among the sources. It gives the stored period with the stored
  payments that reference it, and fails when no period has the id.
\<close>

definition findById :: "state \<Rightarrow> string \<Rightarrow> error + workPeriodJSON" where
  "findById st i =
     (case map_of (workPeriods st) i of
        None \<Rightarrow> Inl (NotFoundError i)
      | Some wp \<Rightarrow>
          Inr (workPeriod.extend wp
                 (workPeriodJSON.fields [p \<leftarrow> workPeriodPayments st. workPeriodId p = i])))"

text \<open>\<^verbatim>\<open>_.omit(w, 'payments')\<close>.\<close>

definition omitPayments :: "workPeriodJSON \<Rightarrow> workPeriod" where
  "omitPayments w = workPeriod.truncate w"

text \<open>
  \<^verbatim>\<open>postEvent(topic, payload, options)\<close> of helper.js: the message goes to the bus client,
  then topic, payload and options go to the event dispatcher.
\<close>

definition postEvent :: "string \<Rightarrow> workPeriod \<Rightarrow> options \<Rightarrow> state \<Rightarrow> state" where
  "postEvent topic payload opts st =
     st\<lparr>bus := bus st @ [(topic, payload)],
        dispatched := dispatched st @ [(topic, payload, opts)]\<rparr>"

text \<open>
  The loop of \<open>updateWorkPeriod\<close> over the payments: \<open>daysPaid\<close> and \<open>paymentTotal\<close> start
  at 0 and grow, by \<^verbatim>\<open>+=\<close>, by the days and the amount of each payment whose status is
  active, in the order of the payments. Each addition is rounded.
\<close>

definition aggregate :: "string list \<Rightarrow> payment list \<Rightarrow> number \<times> number" where
  "aggregate active ps =
     foldl (\<lambda>(dp, pt) p.
              if status p \<in> set active then (numAdd dp (days p), numAdd pt (amount p))
              else (dp, pt))
       (Fin 0, Fin 0) ps"

text \<open>
  \<open>data\<close> as it stands before the comparison: the two sums, and the status computed from
  \<^verbatim>\<open>_.assign({}, workPeriod, data)\<close>, the period with the two sums in place of its own.
\<close>

definition recompute :: "env \<Rightarrow> workPeriodJSON \<Rightarrow> paymentData" where
  "recompute e w =
     (let (dp, pt) = aggregate (ActiveWorkPeriodPaymentStatuses e) (payments w) in
      \<lparr>daysPaid = dp, paymentTotal = pt,
       paymentStatus =
         calculateWorkPeriodPaymentStatus e (w\<lparr>daysPaid := dp, paymentTotal := pt\<rparr>)\<rparr>)"

text \<open>The keys of \<open>data\<close>: all three are assigned on every path.\<close>

definition dataKeys :: "paymentData \<Rightarrow> string list" where
  "dataKeys d = [''daysPaid'', ''paymentTotal'', ''paymentStatus'']"

text \<open>
  \<^verbatim>\<open>workPeriodModel.update(data)\<close> sets the values of \<open>data\<close> on the instance that
  \<open>findById\<close> gave, stores them in its row, and returns the instance.
\<close>

definition applyData :: "paymentData \<Rightarrow> workPeriodJSON \<Rightarrow> workPeriodJSON" where
  "applyData d w =
     w\<lparr>daysPaid := daysPaid d, paymentTotal := paymentTotal d, paymentStatus := paymentStatus d\<rparr>"

text \<open>
  The three comparisons are \<^verbatim>\<open>===\<close>: on the two numbers \<open>strictEq\<close>, on the status, a
  string, equality.
\<close>

definition updateWorkPeriod :: "env \<Rightarrow> state \<Rightarrow> payment \<Rightarrow> error + state" where
  "updateWorkPeriod e st workPeriodPayment =
     (case findById st (workPeriodId workPeriodPayment) of
        Inl err \<Rightarrow> Inl err
      | Inr workPeriod \<Rightarrow>
          let data = recompute e workPeriod in
          if strictEq (daysPaid workPeriod) (daysPaid data)
             \<and> strictEq (paymentTotal workPeriod) (paymentTotal data)
             \<and> paymentStatus workPeriod = paymentStatus data
          then Inr st
          else
            let updated = applyData data workPeriod;
                st' = st\<lparr>workPeriods :=
                           AList.update (workPeriodId workPeriodPayment) (omitPayments updated)
                             (workPeriods st),
                         updates := updates st @ [(workPeriodId workPeriodPayment, data)]\<rparr>
            in Inr (postEvent (TAAS_WORK_PERIOD_UPDATE_TOPIC e) (omitPayments updated)
                      \<lparr>oldValue = workPeriod,
                       key = ''resourceBooking.id:'' @ resourceBookingId workPeriod\<rparr> st'))"

definition processCreate :: "env \<Rightarrow> state \<Rightarrow> payment \<Rightarrow> error + state" where
  "processCreate e st payload = updateWorkPeriod e st payload"

definition processUpdate :: "env \<Rightarrow> state \<Rightarrow> payment \<Rightarrow> error + state" where
  "processUpdate e st payload = updateWorkPeriod e st payload"

section \<open>Notions the properties are stated with\<close>

text \<open>
  A zone whose offset never changes, \<open>c\<close> milliseconds ahead of UTC; UTC itself is the one
  with \<open>c = 0\<close>.
\<close>

definition fixedZone :: "int \<Rightarrow> zone" where
  "fixedZone c = \<lparr>localOffset = (\<lambda>t. c), utcOffset = (\<lambda>l. c)\<rparr>"

definition utc :: zone where
  "utc = fixedZone 0"

text \<open>
  A returned object is a full triple when its start and end are dates (with a time value
  in the range of a date, so not the Invalid Date) and its duration is a finite number;
  \<^verbatim>\<open>endDate - startDate == duration * 7 days\<close> is then a comparison of numbers, in
  milliseconds.
\<close>

fun isDate :: "jsval \<Rightarrow> bool" where
  "isDate (JDate t) = (\<bar>t\<bar> \<le> maxTime)"
| "isDate _ = False"

fun isFiniteNumber :: "jsval \<Rightarrow> bool" where
  "isFiniteNumber (JNum (Fin q)) = True"
| "isFiniteNumber _ = False"

definition fullTriple :: "obj \<Rightarrow> bool" where
  "fullTriple r =
     (isDate (get r ''startDate'') \<and> isDate (get r ''endDate'') \<and>
      isFiniteNumber (get r ''duration''))"

definition weekGap :: "obj \<Rightarrow> bool" where
  "weekGap r =
     (case (toNumber (get r ''endDate''), toNumber (get r ''startDate''),
            toNumber (get r ''duration'')) of
        (Fin e, Fin s, Fin d) \<Rightarrow> e - s = d * of_int msPerWeek
      | _ \<Rightarrow> False)"

text \<open>A duration that is a whole number of weeks, of any sign.\<close>

fun wholeWeeks :: "jsval \<Rightarrow> bool" where
  "wholeWeeks (JNum (Fin q)) = isInteger q"
| "wholeWeeks _ = False"

text \<open>
  The number of the three fields that the function takes as supplied: it tests each by
  truthiness, so an absent, \<^verbatim>\<open>null\<close>, empty, zero or NaN field counts as not supplied.
\<close>

definition suppliedCount :: "obj \<Rightarrow> nat" where
  "suppliedCount input = length [k \<leftarrow> durationFields. truthy (get input k)]"

text \<open>
  The gap between two time values in days, divided by 7, as the specification words the
  actual duration; and what it asks of it: a whole number, at least 1.
\<close>

definition gapWeeks :: "int \<Rightarrow> int \<Rightarrow> rat" where
  "gapWeeks s e = of_int (e - s) / of_int msPerDay / 7"

definition positiveInteger :: "rat \<Rightarrow> bool" where
  "positiveInteger q \<longleftrightarrow> isInteger q \<and> 1 \<le> q"

text \<open>
  Numbers that add without rounding: whole numbers whose magnitudes sum to at most
  \<open>2 ^ 53\<close>. \<open>valueOf\<close> is the value of a finite number.
\<close>

fun wholeNumber :: "number \<Rightarrow> bool" where
  "wholeNumber (Fin q) = isInteger q"
| "wholeNumber _ = False"

fun magnitude :: "number \<Rightarrow> rat" where
  "magnitude (Fin q) = \<bar>q\<bar>"
| "magnitude _ = 0"

fun valueOf :: "number \<Rightarrow> rat" where
  "valueOf (Fin q) = q"
| "valueOf _ = 0"

definition safeIntegers :: "number list \<Rightarrow> bool" where
  "safeIntegers xs \<longleftrightarrow> list_all wholeNumber xs \<and> sum_list (map magnitude xs) \<le> 2 ^ 53"

text \<open>
  The comparison of \<open>updateWorkPeriod\<close> between the stored period and the recomputed
  \<open>data\<close>, and the fields of \<open>data\<close> whose value differs from the stored one.
\<close>

definition unchanged :: "workPeriodJSON \<Rightarrow> paymentData \<Rightarrow> bool" where
  "unchanged w d \<longleftrightarrow>
     strictEq (daysPaid w) (daysPaid d) \<and> strictEq (paymentTotal w) (paymentTotal d) \<and>
     paymentStatus w = paymentStatus d"

definition changedFields :: "workPeriodJSON \<Rightarrow> paymentData \<Rightarrow> string list" where
  "changedFields w d =
     (if \<not> strictEq (daysPaid w) (daysPaid d) then [''daysPaid''] else []) @
     (if \<not> strictEq (paymentTotal w) (paymentTotal d) then [''paymentTotal''] else []) @
     (if paymentStatus w \<noteq> paymentStatus d then [''paymentStatus''] else [])"

text \<open>The handler run twice in succession on the same event, with nothing in between.\<close>

definition runTwice :: "env \<Rightarrow> state \<Rightarrow> payment \<Rightarrow> error + state" where
  "runTwice e st payload =
     (case updateWorkPeriod e st payload of
        Inl err \<Rightarrow> Inl err
      | Inr st1 \<Rightarrow> updateWorkPeriod e st1 payload)"

section \<open>Sample data\<close>

text \<open>
  The zone America/New_York in the year 2021: five hours behind UTC, four from
  2021-03-14 07:00 UTC (1615705200000) to 2021-11-07 06:00 UTC (1636264800000); in local
  time the change is at 1615690800000 and at 1636250400000. Dates in the examples:
  1609459200000 is 2021-01-01, 1610064000000 is 2021-01-08, 1610668800000 is 2021-01-15
  and 1611273600000 is 2021-01-22, each at 00:00 UTC; 1615179600000 is 2021-03-08 and
  1615784400000 is 2021-03-15, each at 05:00 UTC; 1615780800000 is 2021-03-15 at
  04:00 UTC, midnight in New York as 1615179600000 is.
\<close>

definition newYork2021 :: zone where
  "newYork2021 =
     \<lparr>localOffset =
        (\<lambda>t. if 1615705200000 \<le> t \<and> t < 1636264800000 then - 14400000 else - 18000000),
      utcOffset =
        (\<lambda>l. if 1615690800000 \<le> l \<and> l < 1636250400000 then - 14400000 else - 18000000)\<rparr>"

text \<open>
  The doubles that the literals \<^verbatim>\<open>0.1\<close>, \<^verbatim>\<open>0.2\<close> and \<^verbatim>\<open>0.3\<close> denote.
\<close>

definition tenth :: rat where
  "tenth = 3602879701896397 / 36028797018963968"

definition fifth :: rat where
  "fifth = 3602879701896397 / 18014398509481984"

definition threeTenths :: rat where
  "threeTenths = 5404319552844595 / 18014398509481984"

text \<open>
  A status function to run the handler with: it decides from the days paid and worked.
\<close>

definition statusByDays :: "workPeriodJSON \<Rightarrow> string" where
  "statusByDays w =
     (if daysPaid w = Fin 0 then ''pending''
      else if daysPaid w = daysWorked w then ''completed''
      else ''partially-completed'')"

definition sampleEnv :: "(workPeriodJSON \<Rightarrow> string) \<Rightarrow> env" where
  "sampleEnv policy =
     \<lparr>ActiveWorkPeriodPaymentStatuses = [''completed'', ''scheduled''],
      TAAS_WORK_PERIOD_UPDATE_TOPIC = ''taas.workperiod.update'',
      calculateWorkPeriodPaymentStatus = policy\<rparr>"

definition samplePayment :: payment where
  "samplePayment =
     \<lparr>workPeriodId = ''wp1'', status = ''completed'', days = Fin 5, amount = Fin 500\<rparr>"

definition nanPayment :: payment where
  "nanPayment = \<lparr>workPeriodId = ''wp1'', status = ''completed'', days = Fin 5, amount = NaN\<rparr>"

definition amountPayment :: "rat \<Rightarrow> payment" where
  "amountPayment a =
     \<lparr>workPeriodId = ''wp1'', status = ''completed'', days = Fin 1, amount = Fin a\<rparr>"

definition sampleRow :: "number \<Rightarrow> number \<Rightarrow> string \<Rightarrow> workPeriod" where
  "sampleRow dp pt ps =
     \<lparr>daysPaid = dp, paymentTotal = pt, paymentStatus = ps,
      resourceBookingId = ''rb1'', daysWorked = Fin 15\<rparr>"

definition sampleState :: "workPeriod \<Rightarrow> payment list \<Rightarrow> state" where
  "sampleState row ps =
     \<lparr>workPeriods = [(''wp1'', row)], workPeriodPayments = ps,
      updates = [], bus = [], dispatched = []\<rparr>"

section \<open>Properties of the numbers\<close>

lemma roundHalfEven_of_int [simp]: "roundHalfEven (of_int j) = j"
  by (simp add: roundHalfEven_def)

lemma bitlen_pos: "0 < m \<Longrightarrow> 0 < bitlen m"
proof (rule ccontr)
  assume m: "0 < m" and "\<not> 0 < bitlen m"
  then have "nat (bitlen m) = 0" by simp
  with bitlen_bounds [OF m] have "m < 1" by simp
  with m show False by simp
qed

lemma log2floor_lower:
  assumes "x \<noteq> 0"
  shows "2 powi log2floor x \<le> \<bar>x\<bar>"
proof (cases "1 \<le> \<bar>x\<bar>")
  case True
  define m where "m = \<lfloor>\<bar>x\<bar>\<rfloor>"
  from True have m: "0 < m" unfolding m_def by linarith
  from bitlen_bounds [OF m] have b: "2 ^ nat (bitlen m - 1) \<le> m" by simp
  have p: "0 < bitlen m" using m by (rule bitlen_pos)
  have "(2::rat) powi (bitlen m - 1) = 2 ^ nat (bitlen m - 1)"
    using p by (simp add: power_int_def)
  also have "\<dots> = of_int (2 ^ nat (bitlen m - 1))" by simp
  also have "\<dots> \<le> of_int m" using b by (simp only: of_int_le_iff)
  also have "\<dots> \<le> \<bar>x\<bar>" unfolding m_def by simp
  finally show ?thesis using True by (simp add: log2floor_def m_def)
next
  case False
  define y where "y = 1 / \<bar>x\<bar>"
  define c where "c = \<lceil>y\<rceil> - 1"
  from False assms have y1: "1 < y" unfolding y_def by simp
  then have c: "0 < c" unfolding c_def by linarith
  from bitlen_bounds [OF c] have b: "c < 2 ^ nat (bitlen c)" by simp
  have p: "0 < bitlen c" using c by (rule bitlen_pos)
  have "y \<le> of_int (c + 1)" unfolding c_def by simp
  also have "\<dots> \<le> of_int (2 ^ nat (bitlen c))" using b by (simp only: of_int_le_iff)
  also have "\<dots> = (2::rat) ^ nat (bitlen c)" by simp
  finally have "y \<le> 2 ^ nat (bitlen c)" .
  then have "1 / 2 ^ nat (bitlen c) \<le> 1 / y"
    using y1 by (simp add: field_simps)
  moreover have "1 / y = \<bar>x\<bar>" unfolding y_def by simp
  moreover have "(2::rat) powi (- bitlen c) = 1 / 2 ^ nat (bitlen c)"
    using p by (simp add: power_int_def field_simps)
  ultimately show ?thesis using False by (simp add: log2floor_def c_def y_def)
qed

lemma log2floor_upper:
  assumes "x \<noteq> 0"
  shows "\<bar>x\<bar> < 2 powi (log2floor x + 1)"
proof (cases "1 \<le> \<bar>x\<bar>")
  case True
  define m where "m = \<lfloor>\<bar>x\<bar>\<rfloor>"
  from True have m: "0 < m" unfolding m_def by linarith
  from bitlen_bounds [OF m] have b: "m < 2 ^ nat (bitlen m)" by simp
  have p: "0 < bitlen m" using m by (rule bitlen_pos)
  have "\<bar>x\<bar> < of_int (m + 1)" unfolding m_def by linarith
  also have "\<dots> \<le> of_int (2 ^ nat (bitlen m))" using b by (simp only: of_int_le_iff)
  also have "\<dots> = (2::rat) ^ nat (bitlen m)" by simp
  also have "\<dots> = 2 powi (bitlen m)" using p by (simp add: power_int_def)
  finally show ?thesis using True by (simp add: log2floor_def m_def)
next
  case False
  define y where "y = 1 / \<bar>x\<bar>"
  define c where "c = \<lceil>y\<rceil> - 1"
  from False assms have y1: "1 < y" unfolding y_def by simp
  then have c: "0 < c" unfolding c_def by linarith
  from bitlen_bounds [OF c] have b: "2 ^ nat (bitlen c - 1) \<le> c" by simp
  have p: "0 < bitlen c" using c by (rule bitlen_pos)
  have "(2::rat) ^ nat (bitlen c - 1) = of_int (2 ^ nat (bitlen c - 1))" by simp
  also have "\<dots> \<le> of_int c" using b by (simp only: of_int_le_iff)
  also have "\<dots> < y" unfolding c_def by linarith
  finally have "(2::rat) ^ nat (bitlen c - 1) < y" .
  then have "1 / y < 1 / 2 ^ nat (bitlen c - 1)"
    using y1 by (simp add: field_simps)
  moreover have "1 / y = \<bar>x\<bar>" unfolding y_def by simp
  moreover have "(2::rat) powi (- bitlen c + 1) = 1 / 2 ^ nat (bitlen c - 1)"
  proof -
    have "- bitlen c + 1 = - int (nat (bitlen c - 1))" using p by simp
    then show ?thesis by (simp only: power_int_minus power_int_of_nat) (simp add: field_simps)
  qed
  ultimately show ?thesis using False by (simp add: log2floor_def c_def y_def)
qed

lemma roundDouble_exact:
  assumes x: "x \<noteq> 0" and k: "- 1074 \<le> log2floor x - 52"
    and j: "x / 2 powi (log2floor x - 52) = of_int j" and b: "\<bar>x\<bar> < 2 ^ 1024"
  shows "roundDouble x = Fin x"
proof -
  have m: "max (log2floor x - 52) (- 1074) = log2floor x - 52" using k by simp
  have "of_int j * 2 powi (log2floor x - 52) = x"
    unfolding j [symmetric] by simp
  moreover from b have "\<not> 2 ^ 1024 \<le> x" "\<not> x \<le> - (2 ^ 1024)" by linarith+
  ultimately show ?thesis
    using x by (simp only: roundDouble_def m Let_def j roundHalfEven_of_int if_False)
qed

lemma roundDouble_of_int:
  assumes n: "\<bar>n\<bar> \<le> 2 ^ 53"
  shows "roundDouble (of_int n) = Fin (of_int n)"
proof (cases "n = 0")
  case True
  then show ?thesis by (simp add: roundDouble_def)
next
  case False
  define x :: rat where "x = of_int n"
  define e where "e = log2floor x"
  have x0: "x \<noteq> 0" using False by (simp add: x_def)
  have ax: "\<bar>x\<bar> = of_int \<bar>n\<bar>" by (simp add: x_def)
  have x1: "1 \<le> \<bar>x\<bar>" unfolding ax using False by (simp only: of_int_1_le_iff)
  have x53: "\<bar>x\<bar> \<le> 2 ^ 53" unfolding ax using n by (simp only: of_int_le_numeral_power_cancel_iff)
  have lo: "2 powi e \<le> \<bar>x\<bar>" unfolding e_def by (rule log2floor_lower [OF x0])
  have up: "\<bar>x\<bar> < 2 powi (e + 1)" unfolding e_def by (rule log2floor_upper [OF x0])
  have e53: "e \<le> 53"
  proof (rule ccontr)
    assume "\<not> e \<le> 53"
    then have "(2::rat) powi 54 \<le> 2 powi e" by (intro power_int_increasing) simp_all
    with lo x53 show False by simp
  qed
  have e0: "0 \<le> e"
  proof (rule ccontr)
    assume "\<not> 0 \<le> e"
    then have "(2::rat) powi (e + 1) \<le> 2 powi 0" by (intro power_int_increasing) simp_all
    with up x1 show False by simp
  qed
  have "\<exists>j. x / 2 powi (e - 52) = of_int j"
  proof (cases "e \<le> 52")
    case True
    then have "(2::rat) powi (e - 52) = 1 / 2 ^ nat (52 - e)"
      by (simp add: power_int_def field_simps)
    then have "x / 2 powi (e - 52) = of_int (n * 2 ^ nat (52 - e))"
      by (simp add: x_def)
    then show ?thesis by blast
  next
    case False
    with e53 have e: "e = 53" by simp
    with lo x53 have "\<bar>x\<bar> = 2 ^ 53" by simp
    then have "\<bar>n\<bar> = 2 ^ 53" unfolding ax by (simp only: of_int_eq_numeral_power_cancel_iff)
    then have "n = 2 ^ 53 \<or> n = - (2 ^ 53)" by (simp only: abs_eq_iff')
    then have "x = 2 * of_int (2 ^ 52) \<or> x = 2 * of_int (- (2 ^ 52))"
      unfolding x_def by (elim disjE) simp_all
    then have "x / 2 powi (e - 52) = of_int (2 ^ 52) \<or> x / 2 powi (e - 52) = of_int (- (2 ^ 52))"
      unfolding e by (elim disjE) simp_all
    then show ?thesis by blast
  qed
  then obtain j where j: "x / 2 powi (log2floor x - 52) = of_int j" unfolding e_def by blast
  have "roundDouble x = Fin x"
  proof (rule roundDouble_exact [OF x0 _ j])
    show "- 1074 \<le> log2floor x - 52" using e0 by (simp add: e_def)
    have "(2::rat) ^ 53 < 2 ^ 1024" by (rule power_strict_increasing) simp_all
    with x53 show "\<bar>x\<bar> < 2 ^ 1024" by linarith
  qed
  then show ?thesis by (simp add: x_def)
qed

lemma roundDouble_numeral:
  "(numeral n :: int) \<le> 2 ^ 53 \<Longrightarrow> roundDouble (numeral n) = Fin (numeral n)"
  using roundDouble_of_int [of "numeral n"] by simp

lemma roundDouble_0: "roundDouble 0 = Fin 0"
  by (simp add: roundDouble_def)

lemma roundDouble_1: "roundDouble 1 = Fin 1"
  using roundDouble_of_int [of 1] by simp

lemma roundHalfEven_below:
  assumes "of_int f \<le> q" and "q < of_int f + 1 / 2"
  shows "roundHalfEven q = f"
proof -
  from assms have "\<lfloor>q\<rfloor> = f" by linarith
  with assms show ?thesis by (simp add: roundHalfEven_def Let_def)
qed

lemma roundHalfEven_above:
  assumes "of_int f + 1 / 2 < q" and "q < of_int f + 1"
  shows "roundHalfEven q = f + 1"
proof -
  from assms have "\<lfloor>q\<rfloor> = f" by linarith
  with assms show ?thesis by (simp add: roundHalfEven_def Let_def)
qed

lemma roundHalfEven_tie:
  assumes "q = of_int f + 1 / 2"
  shows "roundHalfEven q = (if even f then f else f + 1)"
proof -
  from assms have "\<lfloor>q\<rfloor> = f" by linarith
  with assms show ?thesis by (simp add: roundHalfEven_def Let_def)
qed

lemma roundHalfEven_ge:
  assumes "of_int N \<le> q"
  shows "N \<le> roundHalfEven q"
proof -
  from assms have "N \<le> \<lfloor>q\<rfloor>" by linarith
  then show ?thesis by (simp add: roundHalfEven_def Let_def)
qed

lemma roundHalfEven_le:
  assumes "q \<le> of_int N"
  shows "roundHalfEven q \<le> N"
proof (cases "\<lfloor>q\<rfloor> = N")
  case True
  with assms have "q = of_int N" by linarith
  then show ?thesis by simp
next
  case False
  with assms have "\<lfloor>q\<rfloor> + 1 \<le> N" by linarith
  then show ?thesis by (simp add: roundHalfEven_def Let_def)
qed

text \<open>
  The exponent is determined by its bounds, so a sum is rounded by hand: with \<open>e\<close> such
  that \<open>2 ^ e \<le> \<bar>x\<bar> < 2 ^ (e + 1)\<close>, the double is the nearest multiple of \<open>2 ^ (e - 52)\<close>.
\<close>

lemma log2floor_unique:
  assumes lo: "2 powi e \<le> \<bar>x\<bar>" and up: "\<bar>x\<bar> < 2 powi (e + 1)"
  shows "log2floor x = e"
proof -
  have "(0::rat) < 2 powi e" by simp
  with lo have "0 < \<bar>x\<bar>" by linarith
  then have x: "x \<noteq> 0" by simp
  have 1: "log2floor x < e + 1"
  proof (rule ccontr)
    assume "\<not> log2floor x < e + 1"
    then have "(2::rat) powi (e + 1) \<le> 2 powi log2floor x"
      by (intro power_int_increasing) simp_all
    with up log2floor_lower [OF x] show False by linarith
  qed
  have 2: "e < log2floor x + 1"
  proof (rule ccontr)
    assume "\<not> e < log2floor x + 1"
    then have "(2::rat) powi (log2floor x + 1) \<le> 2 powi e"
      by (intro power_int_increasing) simp_all
    with lo log2floor_upper [OF x] show False by linarith
  qed
  from 1 2 show ?thesis by simp
qed

lemma roundDouble_eq:
  assumes lo: "2 powi e \<le> \<bar>x\<bar>" and up: "\<bar>x\<bar> < 2 powi (e + 1)" and e: "- 1022 \<le> e"
    and j: "roundHalfEven (x / 2 powi (e - 52)) = j"
    and b: "\<bar>of_int j * 2 powi (e - 52)\<bar> \<le> (2::rat) ^ 64"
  shows "roundDouble x = Fin (of_int j * 2 powi (e - 52))"
proof -
  have "(0::rat) < 2 powi e" by simp
  with lo have "0 < \<bar>x\<bar>" by linarith
  then have x: "x \<noteq> 0" by simp
  have l: "log2floor x = e" by (rule log2floor_unique [OF lo up])
  have m: "max (e - 52) (- 1074) = e - 52" using e by simp
  have "(2::rat) ^ 64 < 2 ^ 1024" by (rule power_strict_increasing) simp_all
  with b have "\<not> (2::rat) ^ 1024 \<le> of_int j * 2 powi (e - 52)"
    "\<not> of_int j * 2 powi (e - 52) \<le> - ((2::rat) ^ 1024)" by linarith+
  then show ?thesis
    using x by (simp only: roundDouble_def l m Let_def j if_False)
qed

lemma strictEq_iff: "strictEq a b \<longleftrightarrow> a = b \<and> a \<noteq> NaN"
  by (cases a; cases b) auto

lemma strictEq_refl: "a \<noteq> NaN \<Longrightarrow> strictEq a a"
  by (simp add: strictEq_iff)

lemma truncRat_of_int [simp]: "truncRat (of_int n) = n"
  by (simp add: truncRat_def)

lemma truncRat_numeral [simp]: "truncRat (numeral n) = numeral n"
  using truncRat_of_int [of "numeral n"] by simp

text \<open>
  From \<open>2 ^ 53\<close> on the doubles are whole numbers, and rounding does not lead below it.
\<close>

lemma roundDouble_large:
  assumes x: "2 ^ 53 \<le> \<bar>x\<bar>"
  shows "roundDouble x = PosInfinity \<or> roundDouble x = NegInfinity \<or>
         (\<exists>j. roundDouble x = Fin (of_int j) \<and> 2 ^ 53 \<le> \<bar>j\<bar>)"
proof -
  define e where "e = log2floor x"
  define k where "k = nat (e - 52)"
  define m where "m = roundHalfEven (x / 2 powi (e - 52))"
  from x have x0: "x \<noteq> 0" by auto
  have lo: "2 powi e \<le> \<bar>x\<bar>" unfolding e_def by (rule log2floor_lower [OF x0])
  have up: "\<bar>x\<bar> < 2 powi (e + 1)" unfolding e_def by (rule log2floor_upper [OF x0])
  have e53: "53 \<le> e"
  proof (rule ccontr)
    assume "\<not> 53 \<le> e"
    then have "(2::rat) powi (e + 1) \<le> 2 powi 53" by (intro power_int_increasing) simp_all
    with up x show False by simp
  qed
  then have k1: "1 \<le> k" and ek: "e - 52 = int k" by (simp_all add: k_def)
  have p: "(2::rat) powi (e - 52) = of_int (2 ^ k)" unfolding ek by simp
  have mx: "max (e - 52) (- 1074) = e - 52" using e53 by simp
  have y: "of_int m * (2::rat) powi (e - 52) = of_int (m * 2 ^ k)" unfolding p by simp
  have "e = int (52 + k)" using ek by simp
  then have "(2::rat) powi e = 2 ^ (52 + k)" by (simp only: power_int_of_nat)
  also have "\<dots> = 2 ^ 52 * 2 ^ k" by (rule power_add)
  also have "\<dots> = 2 ^ 52 * 2 powi (e - 52)" unfolding p by simp
  finally have "(2::rat) powi e = 2 ^ 52 * 2 powi (e - 52)" .
  with lo have q: "2 ^ 52 * (2::rat) powi (e - 52) \<le> \<bar>x\<bar>" by (simp only:)
  have pp: "(0::rat) < 2 powi (e - 52)" by simp
  have "2 ^ 52 \<le> \<bar>m\<bar>"
  proof (cases "0 \<le> x")
    case True
    with q have "2 ^ 52 * (2::rat) powi (e - 52) \<le> x" by simp
    with pp have "of_int (2 ^ 52) \<le> x / 2 powi (e - 52)" by (simp add: pos_le_divide_eq)
    then have "2 ^ 52 \<le> m" unfolding m_def by (rule roundHalfEven_ge)
    then show ?thesis by simp
  next
    case False
    with q have "x \<le> - (2 ^ 52 * (2::rat) powi (e - 52))" by simp
    with pp have "x / 2 powi (e - 52) \<le> of_int (- (2 ^ 52))" by (simp add: pos_divide_le_eq)
    then have "m \<le> - (2 ^ 52)" unfolding m_def by (rule roundHalfEven_le)
    then show ?thesis by simp
  qed
  moreover have "(2::int) \<le> 2 ^ k" using k1 by (metis power_increasing power_one_right
        one_le_numeral)
  ultimately have "2 ^ 52 * 2 \<le> \<bar>m\<bar> * 2 ^ k" by (intro mult_mono) simp_all
  then have b: "2 ^ 53 \<le> \<bar>m * 2 ^ k\<bar>" by (simp add: abs_mult)
  have "roundDouble x =
          (if 2 ^ 1024 \<le> (of_int (m * 2 ^ k) :: rat) then PosInfinity
           else if (of_int (m * 2 ^ k) :: rat) \<le> - (2 ^ 1024) then NegInfinity
           else Fin (of_int (m * 2 ^ k)))"
    using x0 unfolding roundDouble_def e_def [symmetric] mx Let_def m_def [symmetric] y
    by (simp only: if_False)
  with b show ?thesis by (metis (full_types))
qed

section \<open>Properties of calculateDuration\<close>

lemma get_triple [simp]:
  "get (triple s e d) ''startDate'' = s"
  "get (triple s e d) ''endDate'' = e"
  "get (triple s e d) ''duration'' = d"
  by (simp_all add: get_def triple_def)

lemma isInteger_floor: "isInteger q \<Longrightarrow> q = of_int \<lfloor>q\<rfloor>"
  unfolding isInteger_def by (rule sym)

lemma isInteger_of_int: "isInteger (of_int n)"
  by (simp add: isInteger_def)

lemma error_distinct: "rangeError \<noteq> conflictError"
  by (simp add: rangeError_def conflictError_def)

lemma msPerWeek_pos: "0 < msPerWeek"
  by (simp add: msPerWeek_def)

lemma msPerWeek_days: "msPerWeek = 7 * msPerDay"
  by (simp add: msPerWeek_def msPerDay_def)

lemma quotient_integer:
  assumes "(of_int d :: rat) / of_int msPerWeek = of_int k"
  shows "d = k * msPerWeek"
proof -
  have "(of_int msPerWeek :: rat) \<noteq> 0" using msPerWeek_pos by simp
  with assms have "(of_int d :: rat) = of_int k * of_int msPerWeek"
    by (simp add: field_simps)
  then have "(of_int d :: rat) = of_int (k * msPerWeek)" by simp
  then show ?thesis by (simp only: of_int_eq_iff)
qed

lemma gapWeeks_eq: "gapWeeks s e = of_int (e - s) / of_int msPerWeek"
  by (simp add: gapWeeks_def msPerWeek_def msPerDay_def)

text \<open>
  The third branch reads the two dates as \<open>actualDuration\<close> does: the quotient of the gap
  when both dates are valid and the gap is within the range of a date, NaN otherwise.
\<close>

lemma actualDuration_times:
  assumes "getTime (newDate sd) = Some s" and "getTime (newDate ed) = Some e"
  shows "actualDuration sd ed = (if \<bar>e - s\<bar> \<le> maxTime then Some (gapWeeks s e) else None)"
  using assms by (simp add: actualDuration_def timeClip_def gapWeeks_eq)

lemma actualDuration_invalid:
  assumes "getTime (newDate sd) = None \<or> getTime (newDate ed) = None"
  shows "actualDuration sd ed = None"
  using assms by (auto simp: actualDuration_def split: option.splits)

lemma calculateDuration_insufficient:
  assumes "suppliedCount input < 2"
  shows "calculateDuration z input = Inr []"
  using assms
  by (auto simp: suppliedCount_def durationFields_def calculateDuration_def Let_def
      split: if_splits)

lemma calculateDuration_both:
  assumes "truthy (get input ''startDate'')" and "truthy (get input ''endDate'')"
  shows "calculateDuration z input =
     (case actualDuration (get input ''startDate'') (get input ''endDate'') of
        None \<Rightarrow> Inl rangeError
      | Some q \<Rightarrow>
          if \<not> isInteger q \<or> q < 1 then Inl rangeError
          else if truthy (get input ''duration'') \<and>
                  JNum (Fin (of_int \<lfloor>q\<rfloor>)) \<noteq> get input ''duration''
          then Inl conflictError
          else Inr (triple (get input ''startDate'') (get input ''endDate'')
                      (JNum (Fin (of_int \<lfloor>q\<rfloor>)))))"
  using assms by (simp add: calculateDuration_def Let_def)

text \<open>A whole number of weeks, added to a date and taken from it.\<close>

lemma addDays_whole:
  assumes "d \<noteq> 0"
  shows "addDays z (JDate t) (JNum (Fin (of_int d)))
           = dateOf (timeClip (utcTime z (localTime z t + d * msPerDay)))"
  using assms by (simp add: addDays_def Let_def)

lemma addWeeks_whole:
  assumes "\<bar>d\<bar> * 7 \<le> 2 ^ 53" and "d \<noteq> 0"
  shows "addWeeks z (JDate t) (JNum (Fin (of_int d)))
           = dateOf (timeClip (utcTime z (localTime z t + d * msPerWeek)))"
proof -
  from assms(1) have "\<bar>d * 7\<bar> \<le> 2 ^ 53" by (simp add: abs_mult)
  then have "roundDouble (of_int (d * 7)) = Fin (of_int (d * 7))" by (rule roundDouble_of_int)
  then have r: "roundDouble (of_int d * 7) = Fin (of_int d * 7)" by simp
  have "addWeeks z (JDate t) (JNum (Fin (of_int d)))
          = addDays z (JDate t) (JNum (Fin (of_int (d * 7))))"
    unfolding addWeeks_def by (simp add: r)
  also have "\<dots> = dateOf (timeClip (utcTime z (localTime z t + (d * 7) * msPerDay)))"
    using assms(2) by (intro addDays_whole) simp
  also have "(d * 7) * msPerDay = d * msPerWeek" by (simp add: msPerWeek_days)
  finally show ?thesis .
qed

lemma subWeeks_whole:
  assumes "\<bar>d\<bar> * 7 \<le> 2 ^ 53" and "d \<noteq> 0"
  shows "subWeeks z (JDate t) (JNum (Fin (of_int d)))
           = dateOf (timeClip (utcTime z (localTime z t - d * msPerWeek)))"
proof -
  have "subWeeks z (JDate t) (JNum (Fin (of_int d)))
          = addWeeks z (JDate t) (JNum (Fin (of_int (- d))))"
    by (simp add: subWeeks_def)
  also have "\<dots> = dateOf (timeClip (utcTime z (localTime z t + (- d) * msPerWeek)))"
    using assms by (intro addWeeks_whole) simp_all
  finally show ?thesis by simp
qed

lemma addWeeks_numeral:
  assumes "(numeral n :: int) * 7 \<le> 2 ^ 53"
  shows "addWeeks z (JDate t) (JNum (Fin (numeral n)))
           = dateOf (timeClip (utcTime z (localTime z t + numeral n * msPerWeek)))"
  using addWeeks_whole [of "numeral n" z t] assms by simp

lemma addWeeks_1:
  "addWeeks z (JDate t) (JNum (Fin 1)) = dateOf (timeClip (utcTime z (localTime z t + msPerWeek)))"
  using addWeeks_whole [of 1 z t] by simp

lemma subWeeks_numeral:
  assumes "(numeral n :: int) * 7 \<le> 2 ^ 53"
  shows "subWeeks z (JDate t) (JNum (Fin (numeral n)))
           = dateOf (timeClip (utcTime z (localTime z t - numeral n * msPerWeek)))"
  using subWeeks_whole [of "numeral n" z t] assms by simp

lemma fixedZone_back: "utcTime (fixedZone c) (localTime (fixedZone c) t + x) = t + x"
  by (simp add: utcTime_def localTime_def fixedZone_def)

lemma dateOf_timeClip_JDate: "dateOf (timeClip t) = JDate e \<Longrightarrow> e = t"
  by (simp add: timeClip_def split: if_splits)

lemma isDate_cases: "isDate v \<Longrightarrow> \<exists>t. v = JDate t \<and> \<bar>t\<bar> \<le> maxTime"
  by (cases v) simp_all

lemma wholeWeeks_cases: "wholeWeeks v \<Longrightarrow> \<exists>d. v = JNum (Fin (of_int d))"
proof (cases v)
  case (JNum n)
  assume w: "wholeWeeks v"
  with JNum obtain q where q: "n = Fin q" by (cases n) simp_all
  with w JNum have "isInteger q" by simp
  then have "q = of_int \<lfloor>q\<rfloor>" by (rule isInteger_floor)
  with q JNum show ?thesis by blast
qed simp_all

text \<open>
  In a zone of constant offset a date moved by a whole number of weeks is a date only
  when it is that many times 604800000 ms away: a number of days that the doubles round
  leads beyond the range of a date.
\<close>

lemma addDays_infinite:
  assumes "n = PosInfinity \<or> n = NegInfinity"
  shows "addDays z d (JNum n) = JInvalidDate"
  using assms by (auto simp: addDays_def Let_def split: option.splits)

lemma addWeeks_fixed_date:
  assumes d: "d \<noteq> 0" and t: "\<bar>t\<bar> \<le> maxTime"
    and a: "addWeeks (fixedZone c) (JDate t) (JNum (Fin (of_int d))) = JDate e"
  shows "e = t + d * msPerWeek"
proof (cases "\<bar>d\<bar> * 7 \<le> 2 ^ 53")
  case True
  from a have "dateOf (timeClip (t + d * msPerWeek)) = JDate e"
    by (simp add: addWeeks_whole [OF True d] fixedZone_back)
  then show ?thesis by (rule dateOf_timeClip_JDate)
next
  case False
  then have "2 ^ 53 \<le> \<bar>d * 7\<bar>" by (simp add: abs_mult)
  then have "(of_int (2 ^ 53) :: rat) \<le> of_int \<bar>d * 7\<bar>" by (simp only: of_int_le_iff)
  then have "2 ^ 53 \<le> \<bar>of_int d * 7 :: rat\<bar>" by simp
  from roundDouble_large [OF this]
  consider (inf) "roundDouble (of_int d * 7) = PosInfinity \<or>
                  roundDouble (of_int d * 7) = NegInfinity"
    | (fin) j where "roundDouble (of_int d * 7) = Fin (of_int j)" "2 ^ 53 \<le> \<bar>j\<bar>"
    by blast
  then have "addWeeks (fixedZone c) (JDate t) (JNum (Fin (of_int d))) = JInvalidDate"
  proof cases
    case inf
    then show ?thesis unfolding addWeeks_def by (intro addDays_infinite) simp
  next
    case fin
    from fin(2) have j0: "j \<noteq> 0" by auto
    from fin(2) t have "\<not> \<bar>t + j * msPerDay\<bar> \<le> maxTime"
      by (simp add: msPerDay_def maxTime_def)
    then have "dateOf (timeClip (t + j * msPerDay)) = JInvalidDate"
      by (simp add: timeClip_def)
    moreover have "addWeeks (fixedZone c) (JDate t) (JNum (Fin (of_int d)))
          = addDays (fixedZone c) (JDate t) (JNum (Fin (of_int j)))"
      unfolding addWeeks_def by (simp add: fin(1))
    ultimately show ?thesis by (simp add: addDays_whole [OF j0] fixedZone_back)
  qed
  with a show ?thesis by simp
qed

lemma subWeeks_fixed_date:
  assumes d: "d \<noteq> 0" and t: "\<bar>t\<bar> \<le> maxTime"
    and a: "subWeeks (fixedZone c) (JDate t) (JNum (Fin (of_int d))) = JDate e"
  shows "e = t - d * msPerWeek"
proof -
  have "subWeeks (fixedZone c) (JDate t) (JNum (Fin (of_int d)))
          = addWeeks (fixedZone c) (JDate t) (JNum (Fin (of_int (- d))))"
    by (simp add: subWeeks_def)
  with a have "addWeeks (fixedZone c) (JDate t) (JNum (Fin (of_int (- d)))) = JDate e"
    by simp
  with d t have "e = t + (- d) * msPerWeek" by (intro addWeeks_fixed_date) simp_all
  then show ?thesis by simp
qed

lemma weekGap_triple:
  "weekGap (triple (JDate s) (JDate e) (JNum (Fin q))) \<longleftrightarrow> of_int (e - s) = q * of_int msPerWeek"
  by (simp add: weekGap_def)

lemma gapWeeks_positive:
  assumes "1 \<le> gapWeeks s e"
  shows "0 < e - s"
proof (rule ccontr)
  assume "\<not> 0 < e - s"
  then have "(of_int (e - s) :: rat) \<le> 0" by simp
  moreover have "(0::rat) < of_int msPerWeek" using msPerWeek_pos by simp
  ultimately have "gapWeeks s e \<le> 0"
    unfolding gapWeeks_eq by (simp add: divide_nonpos_pos)
  with assms show False by simp
qed

text \<open>
  The third branch in the words of the specification: the outcome is decided by the gap
  in weeks, and by the range of a date, which the gap must not exceed.
\<close>

lemma calculateDuration_times:
  assumes t: "truthy (get input ''startDate'')" "truthy (get input ''endDate'')"
    and s: "getTime (newDate (get input ''startDate'')) = Some s"
    and e: "getTime (newDate (get input ''endDate'')) = Some e"
  shows "calculateDuration z input =
     (if \<not> (positiveInteger (gapWeeks s e) \<and> e - s \<le> maxTime) then Inl rangeError
      else if truthy (get input ''duration'') \<and>
              get input ''duration'' \<noteq> JNum (Fin (gapWeeks s e))
      then Inl conflictError
      else Inr (triple (get input ''startDate'') (get input ''endDate'')
                  (JNum (Fin (gapWeeks s e)))))"
proof (cases "positiveInteger (gapWeeks s e)")
  case False
  then show ?thesis
    unfolding calculateDuration_both [OF t] actualDuration_times [OF s e]
    by (auto simp: positiveInteger_def)
next
  case True
  then have "1 \<le> gapWeeks s e" by (simp add: positiveInteger_def)
  then have p: "0 < e - s" by (rule gapWeeks_positive)
  from True have "isInteger (gapWeeks s e)" by (simp add: positiveInteger_def)
  then have i: "of_int \<lfloor>gapWeeks s e\<rfloor> = gapWeeks s e" by (rule isInteger_floor [symmetric])
  from p have a: "\<bar>e - s\<bar> \<le> maxTime \<longleftrightarrow> e - s \<le> maxTime" by simp
  from True show ?thesis
    unfolding calculateDuration_both [OF t] actualDuration_times [OF s e] a
    by (auto simp: positiveInteger_def i)
qed

lemma calculateDuration_invalid:
  assumes t: "truthy (get input ''startDate'')" "truthy (get input ''endDate'')"
    and n: "getTime (newDate (get input ''startDate'')) = None \<or>
            getTime (newDate (get input ''endDate'')) = None"
  shows "calculateDuration z input = Inl rangeError"
  unfolding calculateDuration_both [OF t] actualDuration_invalid [OF n] by simp

lemma week_gap_both:
  assumes c: "calculateDuration z input = Inr r" and f: "fullTriple r"
    and t: "truthy (get input ''startDate'')" "truthy (get input ''endDate'')"
  shows "weekGap r"
proof -
  let ?sd = "get input ''startDate''" and ?ed = "get input ''endDate''"
  from c obtain q where q: "actualDuration ?sd ?ed = Some q" "isInteger q"
    and r: "r = triple ?sd ?ed (JNum (Fin (of_int \<lfloor>q\<rfloor>)))"
    unfolding calculateDuration_both [OF t]
    by (auto split: option.splits if_splits)
  from f obtain s e where se: "?sd = JDate s" "?ed = JDate e"
    unfolding r fullTriple_def using isDate_cases by (metis get_triple(1,2))
  then have "getTime (newDate ?sd) = Some s" "getTime (newDate ?ed) = Some e" by simp_all
  from actualDuration_times [OF this] q(1) have "q = gapWeeks s e"
    by (simp split: if_splits)
  with isInteger_floor [OF q(2)]
  have "of_int (e - s) / of_int msPerWeek = (of_int \<lfloor>q\<rfloor> :: rat)"
    by (simp only: gapWeeks_eq)
  then have "e - s = \<lfloor>q\<rfloor> * msPerWeek" by (rule quotient_integer)
  then have "(of_int (e - s) :: rat) = of_int \<lfloor>q\<rfloor> * of_int msPerWeek"
    by (simp only: of_int_mult)
  then show ?thesis unfolding r se by (simp only: weekGap_triple)
qed

lemma week_gap_fixed:
  assumes c: "calculateDuration (fixedZone c) input = Inr r" and f: "fullTriple r"
    and w: "wholeWeeks (get r ''duration'')"
  shows "weekGap r"
proof -
  let ?z = "fixedZone c"
  let ?sd = "get input ''startDate''" and ?ed = "get input ''endDate''"
  let ?du = "get input ''duration''"
  consider (a) "truthy ?sd" "\<not> truthy ?ed" "truthy ?du"
    | (b) "\<not> truthy ?sd" "truthy ?ed" "truthy ?du"
    | (c) "truthy ?sd" "truthy ?ed"
    | (d) "\<not> (truthy ?sd \<and> \<not> truthy ?ed \<and> truthy ?du)"
          "\<not> (\<not> truthy ?sd \<and> truthy ?ed \<and> truthy ?du)" "\<not> (truthy ?sd \<and> truthy ?ed)"
    by blast
  then show ?thesis
  proof cases
    case a
    with c have r: "r = triple ?sd (addWeeks ?z (newDate ?sd) ?du) ?du"
      by (simp add: calculateDuration_def Let_def)
    from f obtain s e where s: "?sd = JDate s" "\<bar>s\<bar> \<le> maxTime"
      and e: "addWeeks ?z (newDate ?sd) ?du = JDate e"
      unfolding r fullTriple_def using isDate_cases by (metis get_triple(1,2))
    from w obtain d where d: "?du = JNum (Fin (of_int d))"
      unfolding r using wholeWeeks_cases by (metis get_triple(3))
    from a(3) have d0: "d \<noteq> 0" unfolding d by auto
    from e have "addWeeks ?z (JDate s) (JNum (Fin (of_int d))) = JDate e"
      unfolding s d by simp
    with d0 s(2) have "e = s + d * msPerWeek" by (rule addWeeks_fixed_date)
    then have "(of_int (e - s) :: rat) = of_int d * of_int msPerWeek" by simp
    then show ?thesis unfolding r e unfolding s d by (simp only: weekGap_triple)
  next
    case b
    with c have r: "r = triple (subWeeks ?z (newDate ?ed) ?du) ?ed ?du"
      by (simp add: calculateDuration_def Let_def)
    from f obtain s e where e: "?ed = JDate e" "\<bar>e\<bar> \<le> maxTime"
      and s: "subWeeks ?z (newDate ?ed) ?du = JDate s"
      unfolding r fullTriple_def using isDate_cases by (metis get_triple(1,2))
    from w obtain d where d: "?du = JNum (Fin (of_int d))"
      unfolding r using wholeWeeks_cases by (metis get_triple(3))
    from b(3) have d0: "d \<noteq> 0" unfolding d by auto
    from s have "subWeeks ?z (JDate e) (JNum (Fin (of_int d))) = JDate s"
      unfolding e d by simp
    with d0 e(2) have "s = e - d * msPerWeek" by (rule subWeeks_fixed_date)
    then have "(of_int (e - s) :: rat) = of_int d * of_int msPerWeek" by simp
    then show ?thesis unfolding r s unfolding e d by (simp only: weekGap_triple)
  next
    case c
    from week_gap_both [OF assms(1) f c] show ?thesis .
  next
    case d
    with c have "r = []" by (auto simp: calculateDuration_def Let_def)
    with f show ?thesis by (simp add: fullTriple_def get_def)
  qed
qed

lemma calculateDuration_dates:
  assumes "get input ''startDate'' = JDate s" and "get input ''endDate'' = JDate e"
  shows "calculateDuration z input =
     (if \<not> (positiveInteger (gapWeeks s e) \<and> e - s \<le> maxTime) then Inl rangeError
      else if truthy (get input ''duration'') \<and>
              get input ''duration'' \<noteq> JNum (Fin (gapWeeks s e))
      then Inl conflictError
      else Inr (triple (JDate s) (JDate e) (JNum (Fin (gapWeeks s e)))))"
  using calculateDuration_times [of input s e z] assms by simp

lemma positiveInteger_1: "positiveInteger 1"
  by (simp add: positiveInteger_def isInteger_def)

lemma positiveInteger_numeral: "positiveInteger (numeral n)"
  using isInteger_of_int [of "numeral n"] by (simp add: positiveInteger_def)

text \<open>
  The dates of the examples: one and two weeks from 2021-01-01, and two weeks from it by
  a duration.
\<close>

lemma week_1: "gapWeeks 1609459200000 1610064000000 = 1"
  by (simp add: gapWeeks_def msPerDay_def)

lemma week_2: "gapWeeks 1609459200000 1610668800000 = 2"
  by (simp add: gapWeeks_def msPerDay_def)

lemma utc_start_duration:
  "calculateDuration utc (triple (JDate 1609459200000) JUndefined (JNum (Fin 2)))
     = Inr (triple (JDate 1609459200000) (JDate 1610668800000) (JNum (Fin 2)))"
proof -
  have "addWeeks utc (JDate 1609459200000) (JNum (Fin 2)) = JDate 1610668800000"
    unfolding utc_def
    by (simp add: addWeeks_numeral fixedZone_back msPerWeek_def timeClip_def maxTime_def)
  then show ?thesis by (simp add: calculateDuration_def)
qed

text \<open>The runs of the examples.\<close>

lemma newYork_start_duration:
  "calculateDuration newYork2021 [(''startDate'', JDate 1615179600000), (''duration'', JNum (Fin 1))]
     = Inr (triple (JDate 1615179600000) (JDate 1615780800000) (JNum (Fin 1)))"
proof -
  have "addWeeks newYork2021 (JDate 1615179600000) (JNum (Fin 1)) = JDate 1615780800000"
    unfolding addWeeks_1
    by (simp add: utcTime_def localTime_def newYork2021_def msPerWeek_def timeClip_def
        maxTime_def)
  then show ?thesis by (simp add: calculateDuration_def get_def)
qed

lemma newYork_start_end:
  "calculateDuration newYork2021
     [(''startDate'', JDate 1615179600000), (''endDate'', JDate 1615780800000)] = Inl rangeError"
proof -
  let ?i = "[(''startDate'', JDate 1615179600000), (''endDate'', JDate 1615780800000)]"
  have g: "gapWeeks 1615179600000 1615780800000 = 167 / 168"
    by (simp add: gapWeeks_def msPerDay_def)
  have "calculateDuration newYork2021 ?i =
     (if \<not> (positiveInteger (gapWeeks 1615179600000 1615780800000)
              \<and> 1615780800000 - 1615179600000 \<le> maxTime) then Inl rangeError
      else if truthy (get ?i ''duration'') \<and>
              get ?i ''duration'' \<noteq> JNum (Fin (gapWeeks 1615179600000 1615780800000))
      then Inl conflictError
      else Inr (triple (get ?i ''startDate'') (get ?i ''endDate'')
                  (JNum (Fin (gapWeeks 1615179600000 1615780800000)))))"
    by (rule calculateDuration_times) (simp_all add: get_def)
  then show ?thesis by (simp add: g positiveInteger_def)
qed

lemma utc_fraction:
  "calculateDuration utc [(''startDate'', JDate 1609459200000), (''duration'', JNum (Fin (3 / 2)))]
     = Inr (triple (JDate 1609459200000) (JDate 1610064000000) (JNum (Fin (3 / 2))))"
proof -
  have "\<lfloor>(3::rat) / 2\<rfloor> = 1" by linarith
  then have t: "truncRat (3 / 2) = 1" by (simp add: truncRat_def)
  have "addWeeks utc (JDate 1609459200000) (JNum (Fin (3 / 2))) = JDate 1610064000000"
    by (simp add: addWeeks_def addDays_def t roundDouble_1 roundDouble_numeral utc_def
        fixedZone_def utcTime_def localTime_def msPerDay_def timeClip_def maxTime_def)
  then show ?thesis by (simp add: calculateDuration_def get_def)
qed

lemma utc_far_start_duration:
  "calculateDuration utc
     [(''startDate'', JDate (- 4233600000000000)), (''duration'', JNum (Fin 15000000))]
     = Inr (triple (JDate (- 4233600000000000)) (JDate 4838400000000000) (JNum (Fin 15000000)))"
proof -
  have "addWeeks utc (JDate (- 4233600000000000)) (JNum (Fin 15000000))
          = JDate 4838400000000000"
    unfolding utc_def by (simp add: addWeeks_numeral fixedZone_back msPerWeek_def timeClip_def
        maxTime_def)
  then show ?thesis by (simp add: calculateDuration_def get_def)
qed

lemma far_start_end:
  "calculateDuration z
     [(''startDate'', JDate (- 4233600000000000)), (''endDate'', JDate 4838400000000000)]
     = Inl rangeError"
proof -
  let ?i = "[(''startDate'', JDate (- 4233600000000000)), (''endDate'', JDate 4838400000000000)]"
  have "calculateDuration z ?i =
     (if \<not> (positiveInteger (gapWeeks (- 4233600000000000) 4838400000000000)
              \<and> 4838400000000000 - (- 4233600000000000) \<le> maxTime) then Inl rangeError
      else if truthy (get ?i ''duration'') \<and>
              get ?i ''duration'' \<noteq> JNum (Fin (gapWeeks (- 4233600000000000) 4838400000000000))
      then Inl conflictError
      else Inr (triple (get ?i ''startDate'') (get ?i ''endDate'')
                  (JNum (Fin (gapWeeks (- 4233600000000000) 4838400000000000)))))"
    by (rule calculateDuration_times) (simp_all add: get_def)
  then show ?thesis by (simp add: maxTime_def)
qed

lemma far_gap: "positiveInteger (gapWeeks (- 4233600000000000) 4838400000000000)"
proof -
  have "gapWeeks (- 4233600000000000) 4838400000000000 = of_int 15000000"
    by (simp add: gapWeeks_def msPerDay_def)
  then show ?thesis unfolding positiveInteger_def by (simp only: isInteger_of_int) simp
qed




text \<open>
  C8, as the code has it. Round trip: for a start date \<open>s\<close> and a positive integer \<open>d\<close>,
  when local time \<open>d\<close> weeks after the start has the offset of the start (as in a zone
  whose offset never changes), the end \<open>d\<close> weeks after the start is within the range of a
  date, and \<open>d\<close> weeks are within it too, \<^verbatim>\<open>calculateDuration({startDate, duration: d})\<close>
  gives the end date \<open>d\<close> weeks after the start, and
  \<^verbatim>\<open>calculateDuration({startDate, endDate})\<close> with that end date gives the duration \<open>d\<close>
  again, in the same triple.
\<close>

theorem calculateDuration_round_trip:
  assumes "0 < d"
    and "utcOffset z (localTime z s + d * msPerWeek) = localOffset z s"
    and "\<bar>s + d * msPerWeek\<bar> \<le> maxTime" and "d * msPerWeek \<le> maxTime"
  shows "calculateDuration z [(''startDate'', JDate s), (''duration'', JNum (Fin (of_int d)))]
           = Inr (triple (JDate s) (JDate (s + d * msPerWeek)) (JNum (Fin (of_int d)))) \<and>
         calculateDuration z [(''startDate'', JDate s), (''endDate'', JDate (s + d * msPerWeek))]
           = Inr (triple (JDate s) (JDate (s + d * msPerWeek)) (JNum (Fin (of_int d))))"
proof -
  let ?e = "s + d * msPerWeek"
  let ?i = "[(''startDate'', JDate s), (''endDate'', JDate ?e)]"
  from assms(1,4) have b: "\<bar>d\<bar> * 7 \<le> 2 ^ 53" by (simp add: msPerWeek_def maxTime_def)
  from assms(1) have d0: "d \<noteq> 0" by simp
  from assms(2) have "utcTime z (localTime z s + d * msPerWeek) = ?e"
    by (simp add: utcTime_def localTime_def)
  with assms(3) have "addWeeks z (JDate s) (JNum (Fin (of_int d))) = JDate ?e"
    by (simp add: addWeeks_whole [OF b d0] timeClip_def)
  with d0 have 1: "calculateDuration z [(''startDate'', JDate s), (''duration'', JNum (Fin (of_int d)))]
           = Inr (triple (JDate s) (JDate ?e) (JNum (Fin (of_int d))))"
    by (simp add: calculateDuration_def get_def)
  have "(of_int msPerWeek :: rat) \<noteq> 0" using msPerWeek_pos by simp
  then have g: "gapWeeks s ?e = of_int d" by (simp add: gapWeeks_eq)
  from assms(1) have p: "positiveInteger (of_int d)"
    unfolding positiveInteger_def by (simp only: isInteger_of_int) simp
  have "calculateDuration z ?i =
     (if \<not> (positiveInteger (gapWeeks s ?e) \<and> ?e - s \<le> maxTime) then Inl rangeError
      else if truthy (get ?i ''duration'') \<and> get ?i ''duration'' \<noteq> JNum (Fin (gapWeeks s ?e))
      then Inl conflictError
      else Inr (triple (get ?i ''startDate'') (get ?i ''endDate'') (JNum (Fin (gapWeeks s ?e)))))"
    by (rule calculateDuration_times) (simp_all add: get_def)
  with assms(4) have 2: "calculateDuration z ?i
           = Inr (triple (JDate s) (JDate ?e) (JNum (Fin (of_int d))))"
    unfolding g by (simp add: p get_def)
  from 1 2 show ?thesis by simp
qed

text \<open>
  In New York, from 2021-01-01 00:00 UTC and 3 weeks to 2021-01-22 and back.
\<close>

theorem calculateDuration_round_trip_witness:
  "calculateDuration newYork2021
     [(''startDate'', JDate 1609459200000), (''duration'', JNum (Fin 3))]
     = Inr (triple (JDate 1609459200000) (JDate 1611273600000) (JNum (Fin 3))) \<and>
   calculateDuration newYork2021
     [(''startDate'', JDate 1609459200000), (''endDate'', JDate 1611273600000)]
     = Inr (triple (JDate 1609459200000) (JDate 1611273600000) (JNum (Fin 3)))"
  using calculateDuration_round_trip [of 3 newYork2021 1609459200000]
  by (simp add: msPerWeek_def maxTime_def localTime_def newYork2021_def)

text \<open>
  In New York the end that one week from 2021-03-08 00:00 local time gives is 167 hours
  after the start, and the second call fails with the range error. In UTC, 15000000 weeks
  from a start 7000000 weeks before the epoch give a date, 8000000 weeks after the epoch;
  the gap of the two is beyond the range of a date, and the second call fails too. And one
  week from the last date there is gives the Invalid Date, with which the second call
  fails.
\<close>

theorem calculateDuration_round_trip_counterexample:
  "calculateDuration newYork2021 [(''startDate'', JDate 1615179600000), (''duration'', JNum (Fin 1))]
     = Inr (triple (JDate 1615179600000) (JDate 1615780800000) (JNum (Fin 1))) \<and>
   calculateDuration newYork2021
     [(''startDate'', JDate 1615179600000), (''endDate'', JDate 1615780800000)] = Inl rangeError \<and>
   calculateDuration utc
     [(''startDate'', JDate (- 4233600000000000)), (''duration'', JNum (Fin 15000000))]
     = Inr (triple (JDate (- 4233600000000000)) (JDate 4838400000000000) (JNum (Fin 15000000))) \<and>
   calculateDuration utc
     [(''startDate'', JDate (- 4233600000000000)), (''endDate'', JDate 4838400000000000)]
     = Inl rangeError \<and>
   calculateDuration utc [(''startDate'', JDate 8640000000000000), (''duration'', JNum (Fin 1))]
     = Inr (triple (JDate 8640000000000000) JInvalidDate (JNum (Fin 1))) \<and>
   calculateDuration utc [(''startDate'', JDate 8640000000000000), (''endDate'', JInvalidDate)]
     = Inl rangeError"
proof -
  have "addWeeks utc (JDate 8640000000000000) (JNum (Fin 1)) = JInvalidDate"
    unfolding utc_def addWeeks_1 fixedZone_back
    by (simp add: msPerWeek_def timeClip_def maxTime_def)
  then have 1: "calculateDuration utc
                  [(''startDate'', JDate 8640000000000000), (''duration'', JNum (Fin 1))]
     = Inr (triple (JDate 8640000000000000) JInvalidDate (JNum (Fin 1)))"
    by (simp add: calculateDuration_def get_def)
  have 2: "calculateDuration utc
             [(''startDate'', JDate 8640000000000000), (''endDate'', JInvalidDate)]
     = Inl rangeError"
    by (rule calculateDuration_invalid) (simp_all add: get_def)
  from 1 2 newYork_start_duration newYork_start_end utc_far_start_duration
    far_start_end [of utc]
  show ?thesis by simp
qed

text \<open>
  C6, as the code has it. With \<open>startDate\<close> and \<open>endDate\<close> both truthy and both valid
  dates, the call fails with the range error exactly when the gap in days divided by 7 is
  not a positive integer or the gap is beyond the range of a date (8640000000000000 ms);
  it fails with the conflict error exactly when the gap in weeks is a positive integer
  within that range and the duration is truthy and is not that number; otherwise it returns
  start, end and the gap in weeks. With a start or an end that is not a valid date it fails
  with the range error. With fewer than two truthy fields it returns the empty object and
  raises nothing. A field counts by its truthiness, not by its presence: a duration of 0
  is not compared.
\<close>

theorem calculateDuration_start_end:
  fixes input :: obj
  defines "sd \<equiv> get input ''startDate''" and "ed \<equiv> get input ''endDate''"
    and "du \<equiv> get input ''duration''"
  shows "(truthy sd \<and> truthy ed \<and> getTime (newDate sd) = Some s \<and> getTime (newDate ed) = Some e
            \<longrightarrow>
            (calculateDuration z input = Inl rangeError
               \<longleftrightarrow> \<not> (positiveInteger (gapWeeks s e) \<and> e - s \<le> maxTime)) \<and>
            (calculateDuration z input = Inl conflictError
               \<longleftrightarrow> positiveInteger (gapWeeks s e) \<and> e - s \<le> maxTime \<and> truthy du \<and>
                   du \<noteq> JNum (Fin (gapWeeks s e))) \<and>
            (positiveInteger (gapWeeks s e) \<and> e - s \<le> maxTime \<and>
               (truthy du \<longrightarrow> du = JNum (Fin (gapWeeks s e)))
               \<longrightarrow> calculateDuration z input = Inr (triple sd ed (JNum (Fin (gapWeeks s e)))))) \<and>
         (truthy sd \<and> truthy ed \<and>
            (getTime (newDate sd) = None \<or> getTime (newDate ed) = None)
            \<longrightarrow> calculateDuration z input = Inl rangeError) \<and>
         (suppliedCount input < 2 \<longrightarrow> calculateDuration z input = Inr [])"
proof (intro conjI impI)
  assume a: "truthy sd \<and> truthy ed \<and> getTime (newDate sd) = Some s \<and> getTime (newDate ed) = Some e"
  then have c: "calculateDuration z input =
     (if \<not> (positiveInteger (gapWeeks s e) \<and> e - s \<le> maxTime) then Inl rangeError
      else if truthy du \<and> du \<noteq> JNum (Fin (gapWeeks s e)) then Inl conflictError
      else Inr (triple sd ed (JNum (Fin (gapWeeks s e)))))"
    unfolding sd_def ed_def du_def by (intro calculateDuration_times) simp_all
  show "calculateDuration z input = Inl rangeError
          \<longleftrightarrow> \<not> (positiveInteger (gapWeeks s e) \<and> e - s \<le> maxTime)"
    unfolding c using error_distinct by auto
  show "calculateDuration z input = Inl conflictError
          \<longleftrightarrow> positiveInteger (gapWeeks s e) \<and> e - s \<le> maxTime \<and> truthy du \<and>
              du \<noteq> JNum (Fin (gapWeeks s e))"
    unfolding c using error_distinct by auto
  assume "positiveInteger (gapWeeks s e) \<and> e - s \<le> maxTime \<and>
            (truthy du \<longrightarrow> du = JNum (Fin (gapWeeks s e)))"
  then show "calculateDuration z input = Inr (triple sd ed (JNum (Fin (gapWeeks s e))))"
    unfolding c by auto
next
  assume "truthy sd \<and> truthy ed \<and> (getTime (newDate sd) = None \<or> getTime (newDate ed) = None)"
  then show "calculateDuration z input = Inl rangeError"
    unfolding sd_def ed_def by (intro calculateDuration_invalid) simp_all
next
  assume "suppliedCount input < 2"
  then show "calculateDuration z input = Inr []" by (rule calculateDuration_insufficient)
qed

text \<open>
  Start 2021-01-01, end 2021-01-08 and duration 2 fail with the conflict error; an end
  that is the Invalid Date fails with the range error; a duration alone gives the empty
  object.
\<close>

theorem calculateDuration_start_end_witness:
  "calculateDuration utc (triple (JDate 1609459200000) (JDate 1610064000000) (JNum (Fin 2)))
     = Inl conflictError \<and>
   calculateDuration utc (triple (JDate 1609459200000) JInvalidDate (JNum (Fin 2)))
     = Inl rangeError \<and>
   calculateDuration utc [(''duration'', JNum (Fin 3))] = Inr []"
proof -
  have g: "gapWeeks 1609459200000 1610064000000 = 1" by (simp add: gapWeeks_def msPerDay_def)
  have p: "positiveInteger 1" by (simp add: positiveInteger_def isInteger_def)
  have n: "suppliedCount [(''duration'', JNum (Fin 3))] < 2"
    by (simp add: suppliedCount_def durationFields_def get_def)
  from calculateDuration_start_end
         [of "triple (JDate 1609459200000) (JDate 1610064000000) (JNum (Fin 2))"
             1609459200000 1610064000000 utc]
  have 1: "calculateDuration utc (triple (JDate 1609459200000) (JDate 1610064000000) (JNum (Fin 2)))
     = Inl conflictError"
    by (simp add: g p maxTime_def)
  from calculateDuration_start_end
         [of "triple (JDate 1609459200000) JInvalidDate (JNum (Fin 2))" _ _ utc]
  have 2: "calculateDuration utc (triple (JDate 1609459200000) JInvalidDate (JNum (Fin 2)))
     = Inl rangeError"
    by simp
  from calculateDuration_start_end [of "[(''duration'', JNum (Fin 3))]" _ _ utc] n
  have 3: "calculateDuration utc [(''duration'', JNum (Fin 3))] = Inr []" by blast
  from 1 2 3 show ?thesis by simp
qed

text \<open>
  A duration of 0 supplied with start 2021-01-01 and end 2021-01-08 differs from the
  actual duration 1, and no conflict error is raised: the triple with duration 1 is
  returned. And a gap of 15000000 weeks, a positive integer, fails with the range error:
  it is beyond the range of a date.
\<close>

theorem calculateDuration_zero_duration_counterexample:
  "calculateDuration utc (triple (JDate 1609459200000) (JDate 1610064000000) (JNum (Fin 0)))
     = Inr (triple (JDate 1609459200000) (JDate 1610064000000) (JNum (Fin 1))) \<and>
   positiveInteger (gapWeeks (- 4233600000000000) 4838400000000000) \<and>
   calculateDuration utc
     [(''startDate'', JDate (- 4233600000000000)), (''endDate'', JDate 4838400000000000)]
     = Inl rangeError"
proof -
  let ?i = "triple (JDate 1609459200000) (JDate 1610064000000) (JNum (Fin 0))"
  have g: "gapWeeks 1609459200000 1610064000000 = 1" by (simp add: gapWeeks_def msPerDay_def)
  have p: "positiveInteger 1" by (simp add: positiveInteger_def isInteger_def)
  have "calculateDuration utc ?i =
     (if \<not> (positiveInteger (gapWeeks 1609459200000 1610064000000)
              \<and> 1610064000000 - 1609459200000 \<le> maxTime) then Inl rangeError
      else if truthy (get ?i ''duration'') \<and>
              get ?i ''duration'' \<noteq> JNum (Fin (gapWeeks 1609459200000 1610064000000))
      then Inl conflictError
      else Inr (triple (get ?i ''startDate'') (get ?i ''endDate'')
                  (JNum (Fin (gapWeeks 1609459200000 1610064000000)))))"
    by (rule calculateDuration_times) simp_all
  then have "calculateDuration utc ?i
     = Inr (triple (JDate 1609459200000) (JDate 1610064000000) (JNum (Fin 1)))"
    by (simp add: g p maxTime_def)
  with far_gap far_start_end [of utc] show ?thesis by simp
qed

section \<open>Properties of updateDuration\<close>

lemma modifiedFields_filter:
  "modifiedFields original data =
     [f \<leftarrow> durationFields. truthy (get data f) \<and> get data f \<noteq> get original f]"
  by (auto simp: modifiedFields_def durationFields_def)

lemma mergeField_eq:
  "mergeField original data m =
     triple (if m = ''startDate'' then get data ''startDate'' else get original ''startDate'')
            (if m = ''endDate'' then get data ''endDate'' else get original ''endDate'')
            (if m = ''duration'' then get data ''duration'' else get original ''duration'')"
  by (simp add: mergeField_def durationFields_def triple_def)

lemma in_durationFields:
  "f \<in> set durationFields \<longleftrightarrow> f = ''startDate'' \<or> f = ''endDate'' \<or> f = ''duration''"
  by (simp add: durationFields_def)

lemma get_mergeField_self:
  assumes "f \<in> set durationFields"
  shows "get (mergeField original data f) f = get data f"
  using assms unfolding in_durationFields
  by (elim disjE) (simp_all add: mergeField_eq)

lemma get_mergeField_other:
  assumes "f \<in> set durationFields" and "g \<in> set durationFields" and "g \<noteq> f"
  shows "get (mergeField original data f) g = get original g"
  using assms unfolding in_durationFields
  by (elim disjE) (simp_all add: mergeField_eq)

lemma truthy_get_key:
  assumes "truthy (get data f)"
  shows "f \<in> set (keys data)"
proof -
  from assms have "map_of data f \<noteq> None" by (auto simp: get_def split: option.splits)
  then show ?thesis by (auto simp: keys_def dest: map_of_SomeD intro: rev_image_eqI)
qed

lemma modified_in_keys:
  "f \<in> set (modifiedFields original data) \<Longrightarrow> f \<in> set (keys data) \<and> f \<in> set durationFields"
  by (simp add: modifiedFields_filter truthy_get_key)

lemma distinct_keys: "distinct (keys data)"
  by (simp add: keys_def)

lemma two_keys:
  assumes "a \<in> set (keys data)" and "b \<in> set (keys data)" and "a \<noteq> b"
  shows "1 < length (keys data)"
proof -
  have "card {a, b} \<le> card (set (keys data))"
    using assms by (intro card_mono) auto
  with assms(3) show ?thesis by (simp add: distinct_card [OF distinct_keys])
qed

lemma single_key:
  assumes "length (keys data) = 1" and "modifiedFields original data \<noteq> []"
  shows "keys data = [hd (modifiedFields original data)]"
proof -
  from assms(2) have "hd (modifiedFields original data) \<in> set (keys data)"
    using modified_in_keys hd_in_set by blast
  with assms(1) show ?thesis by (cases "keys data") auto
qed

lemma no_modified_empty:
  "modifiedFields original data = [] \<Longrightarrow> updateDuration z original data = Inr (Some [])"
  by (simp add: updateDuration_def)

text \<open>
  The fall off the end of the function is never reached: a modified field is a key of the
  patch, so the patch has at least one key.
\<close>

lemma updateDuration_never_undefined: "updateDuration z original data \<noteq> Inr None"
proof (cases "modifiedFields original data = []")
  case True
  then show ?thesis by (simp add: updateDuration_def)
next
  case False
  then have "hd (modifiedFields original data) \<in> set (keys data)"
    using modified_in_keys hd_in_set by blast
  then have "length (keys data) = 1 \<or> 1 < length (keys data)" by (cases "keys data") auto
  with False show ?thesis
    by (cases "calculateDuration z data";
        cases "calculateDuration z (mergeField original data (hd (modifiedFields original data)))")
       (auto simp: updateDuration_def Let_def)
qed

text \<open>
  C9. A patch field whose value is falsy (a duration of 0, an empty string for a date,
  \<^verbatim>\<open>null\<close>) is never among the modified fields; so when every duration field of the patch
  that differs from the original's is falsy, \<open>updateDuration\<close> returns the empty object,
  with no recomputation and no error, whatever the original.
\<close>

theorem updateDuration_falsy_not_modified:
  "(\<not> truthy (get data f) \<longrightarrow> f \<notin> set (modifiedFields original data)) \<and>
   ((\<forall>g \<in> set durationFields. get data g \<noteq> get original g \<longrightarrow> \<not> truthy (get data g))
      \<longrightarrow> updateDuration z original data = Inr (Some []))"
proof (intro conjI impI)
  assume "\<not> truthy (get data f)"
  then show "f \<notin> set (modifiedFields original data)"
    by (simp add: modifiedFields_filter)
next
  assume "\<forall>g \<in> set durationFields. get data g \<noteq> get original g \<longrightarrow> \<not> truthy (get data g)"
  then have "modifiedFields original data = []"
    by (auto simp: modifiedFields_filter filter_empty_conv)
  then show "updateDuration z original data = Inr (Some [])" by (rule no_modified_empty)
qed

text \<open>
  A patch with an empty start date and a duration of 0, on the triple 2021-01-01,
  2021-01-08, 1 week.
\<close>

theorem updateDuration_falsy_not_modified_witness:
  "updateDuration utc (triple (JDate 1609459200000) (JDate 1610064000000) (JNum (Fin 1)))
     [(''startDate'', JEmptyString), (''duration'', JNum (Fin 0))] = Inr (Some []) \<and>
   ''duration'' \<notin> set (modifiedFields (triple (JDate 1609459200000) (JDate 1610064000000) (JNum (Fin 1)))
     [(''startDate'', JEmptyString), (''duration'', JNum (Fin 0))])"
  using updateDuration_falsy_not_modified
    [of "[(''startDate'', JEmptyString), (''duration'', JNum (Fin 0))]" "''duration''"
        "triple (JDate 1609459200000) (JDate 1610064000000) (JNum (Fin 1))"]
  by (simp add: durationFields_def get_def triple_def)

text \<open>
  C10. The branch is chosen by the number of all keys of the patch: when the patch has a
  modified duration field (one, or more) and a key that is not a duration field, the branch
  \<^verbatim>\<open>fieldsCount > 1\<close> runs and the result is that of \<open>calculateDuration\<close> on the patch
  alone; when the patch has fewer than two truthy duration fields, that is the empty object.
\<close>

theorem updateDuration_counts_every_key:
  assumes "modifiedFields original data \<noteq> []"
    and "k \<in> set (keys data)" and "k \<notin> set durationFields"
  shows "updateDuration z original data = map_sum id Some (calculateDuration z data) \<and>
         (suppliedCount data < 2 \<longrightarrow> updateDuration z original data = Inr (Some []))"
proof -
  from assms(1) have "hd (modifiedFields original data) \<in> set (modifiedFields original data)"
    by simp
  then have h: "hd (modifiedFields original data) \<in> set (keys data)"
    "hd (modifiedFields original data) \<in> set durationFields"
    using modified_in_keys by blast+
  with assms(2,3) have "1 < length (keys data)"
    by (intro two_keys [of k data "hd (modifiedFields original data)"]) auto
  with assms(1) have u: "updateDuration z original data = map_sum id Some (calculateDuration z data)"
    by (simp add: updateDuration_def Let_def)
  then show ?thesis by (simp add: calculateDuration_insufficient)
qed

text \<open>
  The original has a start date and a duration of 1; the patch sets the duration to 2 and
  carries one more key. The result is the empty object, where the recomputation from the
  original would have given the triple ending 2021-01-15.
\<close>

theorem updateDuration_counts_every_key_witness:
  "updateDuration utc [(''startDate'', JDate 1609459200000), (''duration'', JNum (Fin 1))]
     [(''duration'', JNum (Fin 2)), (''status'', JNull)] = Inr (Some []) \<and>
   calculateDuration utc
     (mergeField [(''startDate'', JDate 1609459200000), (''duration'', JNum (Fin 1))]
        [(''duration'', JNum (Fin 2)), (''status'', JNull)] ''duration'')
     = Inr (triple (JDate 1609459200000) (JDate 1610668800000) (JNum (Fin 2)))"
proof -
  let ?orig = "[(''startDate'', JDate 1609459200000), (''duration'', JNum (Fin 1))]"
  let ?data = "[(''duration'', JNum (Fin 2)), (''status'', JNull)]"
  have m: "modifiedFields ?orig ?data \<noteq> []"
    by (simp add: modifiedFields_filter durationFields_def get_def)
  have k: "''status'' \<in> set (keys ?data)" by (simp add: keys_def)
  have n: "''status'' \<notin> set durationFields" by (simp add: durationFields_def)
  have s: "suppliedCount ?data < 2" by (simp add: suppliedCount_def durationFields_def get_def)
  have c: "calculateDuration utc (mergeField ?orig ?data ''duration'')
     = Inr (triple (JDate 1609459200000) (JDate 1610668800000) (JNum (Fin 2)))"
    using utc_start_duration by (simp add: mergeField_eq get_def)
  from updateDuration_counts_every_key [OF m k n] s
  have "updateDuration utc ?orig ?data = Inr (Some [])" by blast
  with c show ?thesis by simp
qed

text \<open>
  C7, as the code has it. \<open>updateDuration\<close> returns the empty object when no duration field
  of the patch differs from the original's, and whenever no field is modified (truthy in
  the patch and different from the original's). Otherwise, when the patch has exactly one
  key, that key is the modified duration field and the result is that of \<open>calculateDuration\<close>
  on this field from the patch with the other two fields from the original; when the patch
  has more than one key, the result is that of \<open>calculateDuration\<close> on the patch alone, and
  when the patch then has fewer than two truthy duration fields this is the empty object,
  returned as it is: no error is raised.
\<close>

theorem updateDuration_branches:
  "((\<forall>f \<in> set durationFields \<inter> set (keys data). get data f = get original f)
      \<longrightarrow> updateDuration z original data = Inr (Some [])) \<and>
   (modifiedFields original data = [] \<longrightarrow> updateDuration z original data = Inr (Some [])) \<and>
   (modifiedFields original data \<noteq> [] \<and> length (keys data) = 1 \<longrightarrow>
      (\<exists>f \<in> set durationFields. keys data = [f] \<and>
         updateDuration z original data
           = map_sum id Some (calculateDuration z (mergeField original data f)) \<and>
         get (mergeField original data f) f = get data f \<and>
         (\<forall>g \<in> set durationFields. g \<noteq> f \<longrightarrow>
            get (mergeField original data f) g = get original g))) \<and>
   (modifiedFields original data \<noteq> [] \<and> 1 < length (keys data) \<longrightarrow>
      updateDuration z original data = map_sum id Some (calculateDuration z data) \<and>
      (suppliedCount data < 2 \<longrightarrow> updateDuration z original data = Inr (Some [])))"
proof (intro conjI impI)
  assume a: "\<forall>f \<in> set durationFields \<inter> set (keys data). get data f = get original f"
  have "modifiedFields original data = []"
    unfolding modifiedFields_filter filter_empty_conv
  proof
    fix f assume "f \<in> set durationFields"
    with a truthy_get_key [of data f]
    show "\<not> (truthy (get data f) \<and> get data f \<noteq> get original f)" by blast
  qed
  then show "updateDuration z original data = Inr (Some [])" by (rule no_modified_empty)
next
  assume "modifiedFields original data = []"
  then show "updateDuration z original data = Inr (Some [])" by (rule no_modified_empty)
next
  assume a: "modifiedFields original data \<noteq> [] \<and> length (keys data) = 1"
  let ?f = "hd (modifiedFields original data)"
  from a have k: "keys data = [?f]" by (simp add: single_key)
  from a have f: "?f \<in> set durationFields"
    using modified_in_keys hd_in_set by blast
  from a have "updateDuration z original data
           = map_sum id Some (calculateDuration z (mergeField original data ?f))"
    by (simp add: updateDuration_def Let_def)
  with k f get_mergeField_self [OF f] get_mergeField_other [OF f]
  show "\<exists>f \<in> set durationFields. keys data = [f] \<and>
         updateDuration z original data
           = map_sum id Some (calculateDuration z (mergeField original data f)) \<and>
         get (mergeField original data f) f = get data f \<and>
         (\<forall>g \<in> set durationFields. g \<noteq> f \<longrightarrow>
            get (mergeField original data f) g = get original g)"
    by blast
next
  assume a: "modifiedFields original data \<noteq> [] \<and> 1 < length (keys data)"
  then show u: "updateDuration z original data = map_sum id Some (calculateDuration z data)"
    by (simp add: updateDuration_def Let_def)
  assume "suppliedCount data < 2"
  with u show "updateDuration z original data = Inr (Some [])"
    by (simp add: calculateDuration_insufficient)
qed

text \<open>
  A lone duration on an original without end date computes the end; a patch with start and
  end replaces the triple; a patch that repeats the original's duration returns the empty
  object.
\<close>

theorem updateDuration_branches_witness:
  "updateDuration utc [(''startDate'', JDate 1609459200000), (''duration'', JNum (Fin 1))]
     [(''duration'', JNum (Fin 2))]
     = Inr (Some (triple (JDate 1609459200000) (JDate 1610668800000) (JNum (Fin 2)))) \<and>
   updateDuration utc (triple (JDate 1609459200000) (JDate 1610064000000) (JNum (Fin 1)))
     [(''startDate'', JDate 1609459200000), (''endDate'', JDate 1610668800000)]
     = Inr (Some (triple (JDate 1609459200000) (JDate 1610668800000) (JNum (Fin 2)))) \<and>
   updateDuration utc (triple (JDate 1609459200000) (JDate 1610064000000) (JNum (Fin 1)))
     [(''duration'', JNum (Fin 1))] = Inr (Some [])"
proof -
  let ?o1 = "[(''startDate'', JDate 1609459200000), (''duration'', JNum (Fin 1))]"
  let ?d1 = "[(''duration'', JNum (Fin 2))]"
  let ?o2 = "triple (JDate 1609459200000) (JDate 1610064000000) (JNum (Fin 1))"
  let ?d2 = "[(''startDate'', JDate 1609459200000), (''endDate'', JDate 1610668800000)]"
  let ?d3 = "[(''duration'', JNum (Fin 1))]"
  have m1: "modifiedFields ?o1 ?d1 \<noteq> [] \<and> length (keys ?d1) = 1"
    by (simp add: modifiedFields_filter durationFields_def get_def keys_def)
  have c1: "calculateDuration utc (mergeField ?o1 ?d1 ''duration'')
     = Inr (triple (JDate 1609459200000) (JDate 1610668800000) (JNum (Fin 2)))"
    using utc_start_duration by (simp add: mergeField_eq get_def)
  have m2: "modifiedFields ?o2 ?d2 \<noteq> [] \<and> 1 < length (keys ?d2)"
    by (simp add: modifiedFields_filter durationFields_def get_def keys_def triple_def)
  have c2: "calculateDuration utc ?d2
     = Inr (triple (JDate 1609459200000) (JDate 1610668800000) (JNum (Fin 2)))"
    using calculateDuration_dates [of ?d2 1609459200000 1610668800000 utc]
    by (simp add: get_def week_2 positiveInteger_numeral maxTime_def)
  have m3: "\<forall>f \<in> set durationFields \<inter> set (keys ?d3). get ?d3 f = get ?o2 f"
    by (simp add: durationFields_def keys_def get_def triple_def)
  have k1: "keys ?d1 = [''duration'']" by (simp add: keys_def)
  from updateDuration_branches [of ?d1 ?o1] m1
  obtain f where "keys ?d1 = [f]"
    and "updateDuration utc ?o1 ?d1 = map_sum id Some (calculateDuration utc (mergeField ?o1 ?d1 f))"
    by blast
  with k1 c1 have r1: "updateDuration utc ?o1 ?d1
     = Inr (Some (triple (JDate 1609459200000) (JDate 1610668800000) (JNum (Fin 2))))"
    by simp
  from updateDuration_branches [of ?d2 ?o2] m2
  have "updateDuration utc ?o2 ?d2 = map_sum id Some (calculateDuration utc ?d2)" by blast
  with c2 have r2: "updateDuration utc ?o2 ?d2
     = Inr (Some (triple (JDate 1609459200000) (JDate 1610668800000) (JNum (Fin 2))))"
    by simp
  from updateDuration_branches [of ?d3 ?o2] m3
  have r3: "updateDuration utc ?o2 ?d3 = Inr (Some [])" by blast
  from r1 r2 r3 show ?thesis by simp
qed

text \<open>
  A patch with a new duration and \<^verbatim>\<open>endDate: null\<close> has two keys and one usable field:
  \<open>updateDuration\<close> returns the empty object, not an error. A patch whose one field is a
  duration of 0, which differs from the original's, gives the empty object too, not what
  \<open>calculateDuration\<close> gives on that field with the other two of the original.
\<close>

theorem updateDuration_no_validation_error_counterexample:
  "updateDuration utc (triple (JDate 1609459200000) (JDate 1610064000000) (JNum (Fin 1)))
     [(''duration'', JNum (Fin 2)), (''endDate'', JNull)] = Inr (Some []) \<and>
   updateDuration utc (triple (JDate 1609459200000) (JDate 1610064000000) (JNum (Fin 1)))
     [(''duration'', JNum (Fin 0))] = Inr (Some []) \<and>
   calculateDuration utc
     (mergeField (triple (JDate 1609459200000) (JDate 1610064000000) (JNum (Fin 1)))
        [(''duration'', JNum (Fin 0))] ''duration'')
     = Inr (triple (JDate 1609459200000) (JDate 1610064000000) (JNum (Fin 1)))"
proof -
  let ?o = "triple (JDate 1609459200000) (JDate 1610064000000) (JNum (Fin 1))"
  let ?d = "[(''duration'', JNum (Fin 2)), (''endDate'', JNull)]"
  let ?z = "[(''duration'', JNum (Fin 0))]"
  have m: "modifiedFields ?o ?d = [''duration'']"
    by (simp add: modifiedFields_filter durationFields_def get_def triple_def)
  have k: "keys ?d = [''duration'', ''endDate'']" by (simp add: keys_def)
  have c: "calculateDuration utc ?d = Inr []"
    by (simp add: calculateDuration_def get_def)
  from m k c have 1: "updateDuration utc ?o ?d = Inr (Some [])" by (simp add: updateDuration_def)
  have "modifiedFields ?o ?z = []"
    by (simp add: modifiedFields_filter durationFields_def get_def triple_def)
  then have 2: "updateDuration utc ?o ?z = Inr (Some [])" by (simp add: updateDuration_def)
  have g: "mergeField ?o ?z ''duration''
             = triple (JDate 1609459200000) (JDate 1610064000000) (JNum (Fin 0))"
    by (simp add: mergeField_eq get_def triple_def)
  have 3: "calculateDuration utc (triple (JDate 1609459200000) (JDate 1610064000000) (JNum (Fin 0)))
             = Inr ?o"
    using calculateDuration_dates
            [of "triple (JDate 1609459200000) (JDate 1610064000000) (JNum (Fin 0))"
                1609459200000 1610064000000 utc]
    by (simp add: week_1 positiveInteger_1 maxTime_def)
  from 1 2 g 3 show ?thesis by simp
qed

text \<open>
  On an original that has all three fields, a patch with a new duration alone recomputes
  nothing: the three fields go to \<open>calculateDuration\<close>, which compares the new duration
  with the dates of the original.
\<close>

lemma updateDuration_lone_field_on_full_triple:
  "updateDuration utc (triple (JDate 1609459200000) (JDate 1610064000000) (JNum (Fin 1)))
     [(''duration'', JNum (Fin 2))] = Inl conflictError"
proof -
  let ?o = "triple (JDate 1609459200000) (JDate 1610064000000) (JNum (Fin 1))"
  let ?d = "[(''duration'', JNum (Fin 2))]"
  have m: "modifiedFields ?o ?d = [''duration'']"
    by (simp add: modifiedFields_filter durationFields_def get_def triple_def)
  have k: "keys ?d = [''duration'']" by (simp add: keys_def)
  have g: "mergeField ?o ?d ''duration''
              = triple (JDate 1609459200000) (JDate 1610064000000) (JNum (Fin 2))"
    by (simp add: mergeField_eq get_def triple_def)
  have c: "calculateDuration utc (triple (JDate 1609459200000) (JDate 1610064000000) (JNum (Fin 2)))
              = Inl conflictError"
    using calculateDuration_dates
            [of "triple (JDate 1609459200000) (JDate 1610064000000) (JNum (Fin 2))"
                1609459200000 1610064000000 utc]
    by (simp add: week_1 positiveInteger_1 maxTime_def)
  from m k g c show ?thesis by (simp add: updateDuration_def)
qed

section \<open>Properties of the payment event handler\<close>

lemma foldl_aggregate:
  "foldl (\<lambda>(dp, pt) p.
            if status p \<in> set active then (numAdd dp (days p), numAdd pt (amount p))
            else (dp, pt))
     (a, b) ps
   = (foldl numAdd a (map days [p \<leftarrow> ps. status p \<in> set active]),
      foldl numAdd b (map amount [p \<leftarrow> ps. status p \<in> set active]))"
  by (induction ps arbitrary: a b) simp_all

lemma aggregate_eq:
  "aggregate active ps
     = (foldl numAdd (Fin 0) (map days [p \<leftarrow> ps. status p \<in> set active]),
        foldl numAdd (Fin 0) (map amount [p \<leftarrow> ps. status p \<in> set active]))"
  by (simp add: aggregate_def foldl_aggregate)

lemma magnitude_nonneg: "0 \<le> magnitude x"
  by (cases x) simp_all

lemma sum_magnitude_nonneg: "0 \<le> sum_list (map magnitude xs)"
  by (rule sum_list_nonneg) (auto simp: magnitude_nonneg)

text \<open>Whole numbers whose magnitudes stay within \<open>2 ^ 53\<close> add without rounding.\<close>

lemma foldl_numAdd_exact:
  assumes "isInteger a" and "list_all wholeNumber xs"
    and "\<bar>a\<bar> + sum_list (map magnitude xs) \<le> 2 ^ 53"
  shows "foldl numAdd (Fin a) xs = Fin (a + sum_list (map valueOf xs))"
  using assms
proof (induction xs arbitrary: a)
  case Nil
  then show ?case by simp
next
  case (Cons x xs)
  from Cons.prems(2) obtain q where x: "x = Fin q" and q: "isInteger q"
    by (cases x) simp_all
  from Cons.prems(1) q have aq: "a = of_int \<lfloor>a\<rfloor>" "q = of_int \<lfloor>q\<rfloor>"
    by (simp_all add: isInteger_floor)
  have s: "a + q = of_int (\<lfloor>a\<rfloor> + \<lfloor>q\<rfloor>)" by (subst aq(1), subst aq(2)) simp
  from Cons.prems(3) sum_magnitude_nonneg [of xs] have b: "\<bar>a\<bar> + \<bar>q\<bar> \<le> 2 ^ 53"
    unfolding x by simp
  have "\<bar>a + q\<bar> \<le> \<bar>a\<bar> + \<bar>q\<bar>" by (rule abs_triangle_ineq)
  with b have "\<bar>(of_int (\<lfloor>a\<rfloor> + \<lfloor>q\<rfloor>) :: rat)\<bar> \<le> of_int (2 ^ 53)" unfolding s by simp
  then have "\<bar>\<lfloor>a\<rfloor> + \<lfloor>q\<rfloor>\<bar> \<le> 2 ^ 53" by (simp only: of_int_abs [symmetric] of_int_le_iff)
  then have "roundDouble (of_int (\<lfloor>a\<rfloor> + \<lfloor>q\<rfloor>)) = Fin (of_int (\<lfloor>a\<rfloor> + \<lfloor>q\<rfloor>))"
    by (rule roundDouble_of_int)
  then have n: "roundDouble (a + q) = Fin (a + q)" unfolding s [symmetric] .
  have i: "isInteger (a + q)" unfolding s by (rule isInteger_of_int)
  from Cons.prems(2) have l: "list_all wholeNumber xs" by simp
  have "\<bar>a + q\<bar> \<le> \<bar>a\<bar> + \<bar>q\<bar>" by (rule abs_triangle_ineq)
  with Cons.prems(3) have m: "\<bar>a + q\<bar> + sum_list (map magnitude xs) \<le> 2 ^ 53"
    unfolding x by simp
  from Cons.IH [OF i l m] show ?case by (simp add: n x add.assoc)
qed

lemma safeIntegers_sum:
  assumes "safeIntegers xs"
  shows "foldl numAdd (Fin 0) xs = Fin (sum_list (map valueOf xs))"
proof -
  have "isInteger 0" using isInteger_of_int [of 0] by simp
  with assms foldl_numAdd_exact [of 0 xs] show ?thesis by (simp add: safeIntegers_def)
qed

lemma sum_list_map_mset:
  fixes f :: "'a \<Rightarrow> 'b::comm_monoid_add"
  shows "sum_list (map f xs) = sum_mset (image_mset f (mset xs))"
  by (metis mset_map sum_mset_sum_list)

lemma safeIntegers_mset:
  assumes "mset xs = mset ys"
  shows "safeIntegers xs \<longleftrightarrow> safeIntegers ys"
proof -
  from assms have "set xs = set ys" by (rule mset_eq_setD)
  then have "list_all wholeNumber xs \<longleftrightarrow> list_all wholeNumber ys" by (simp add: list_all_iff)
  with assms show ?thesis by (simp add: safeIntegers_def sum_list_map_mset)
qed

lemma active_mset:
  assumes "mset qs = mset ps"
  shows "mset (map f [p \<leftarrow> qs. status p \<in> set active])
           = mset (map f [p \<leftarrow> ps. status p \<in> set active])"
  using assms by (metis mset_filter mset_map)

lemma aggregate_safe:
  assumes "safeIntegers (map days [p \<leftarrow> ps. status p \<in> set active])"
    and "safeIntegers (map amount [p \<leftarrow> ps. status p \<in> set active])"
  shows "aggregate active ps
           = (Fin (sum_list (map (valueOf \<circ> days) [p \<leftarrow> ps. status p \<in> set active])),
              Fin (sum_list (map (valueOf \<circ> amount) [p \<leftarrow> ps. status p \<in> set active])))"
  using assms by (simp add: aggregate_eq safeIntegers_sum)

lemma aggregate_permuted:
  assumes d: "safeIntegers (map days [p \<leftarrow> ps. status p \<in> set active])"
    and a: "safeIntegers (map amount [p \<leftarrow> ps. status p \<in> set active])"
    and m: "mset qs = mset ps"
  shows "aggregate active qs = aggregate active ps"
proof -
  let ?A = "[p \<leftarrow> ps. status p \<in> set active]" and ?B = "[p \<leftarrow> qs. status p \<in> set active]"
  from m have md: "mset (map days ?B) = mset (map days ?A)"
    and ma: "mset (map amount ?B) = mset (map amount ?A)"
    by (rule active_mset)+
  from d a have d': "safeIntegers (map days ?B)" and a': "safeIntegers (map amount ?B)"
    using safeIntegers_mset [OF md] safeIntegers_mset [OF ma] by simp_all
  have "sum_list (map valueOf (map days ?B)) = sum_list (map valueOf (map days ?A))"
    unfolding sum_list_map_mset [of valueOf] md ..
  moreover have "sum_list (map valueOf (map amount ?B)) = sum_list (map valueOf (map amount ?A))"
    unfolding sum_list_map_mset [of valueOf] ma ..
  ultimately show ?thesis
    unfolding aggregate_safe [OF d a] aggregate_safe [OF d' a'] by simp
qed

text \<open>The sums of the doubles 0.1, 0.2 and 0.3, in this order and in the reverse.\<close>

lemma tenth_exact: "numAdd (Fin 0) (Fin tenth) = Fin tenth"
proof -
  have r: "roundHalfEven (tenth / 2 powi (- 4 - 52)) = 7205759403792794"
    using roundHalfEven_of_int [of 7205759403792794] by (simp add: tenth_def power_int_minus)
  have "roundDouble tenth = Fin (of_int 7205759403792794 * 2 powi (- 4 - 52))"
    by (rule roundDouble_eq [OF _ _ _ r]) (simp_all add: tenth_def power_int_minus)
  then show ?thesis by (simp add: power_int_minus tenth_def)
qed

lemma threeTenths_exact: "numAdd (Fin 0) (Fin threeTenths) = Fin threeTenths"
proof -
  have r: "roundHalfEven (threeTenths / 2 powi (- 2 - 52)) = 5404319552844595"
    using roundHalfEven_of_int [of 5404319552844595]
    by (simp add: threeTenths_def power_int_minus)
  have "roundDouble threeTenths = Fin (of_int 5404319552844595 * 2 powi (- 2 - 52))"
    by (rule roundDouble_eq [OF _ _ _ r]) (simp_all add: threeTenths_def power_int_minus)
  then show ?thesis by (simp add: power_int_minus threeTenths_def)
qed

lemma tenth_fifth:
  "numAdd (Fin tenth) (Fin fifth) = Fin (1351079888211149 / 4503599627370496)"
proof -
  have r: "roundHalfEven ((tenth + fifth) / 2 powi (- 2 - 52)) = 5404319552844596"
    using roundHalfEven_tie [of "(tenth + fifth) / 2 powi (- 2 - 52)" 5404319552844595]
    by (simp add: tenth_def fifth_def power_int_minus)
  have "roundDouble (tenth + fifth) = Fin (of_int 5404319552844596 * 2 powi (- 2 - 52))"
    by (rule roundDouble_eq [OF _ _ _ r]) (simp_all add: tenth_def fifth_def power_int_minus)
  then show ?thesis by (simp add: power_int_minus)
qed

lemma tenth_fifth_threeTenths:
  "numAdd (Fin (1351079888211149 / 4503599627370496)) (Fin threeTenths)
     = Fin (1351079888211149 / 2251799813685248)"
proof -
  let ?x = "1351079888211149 / 4503599627370496 + threeTenths"
  have r: "roundHalfEven (?x / 2 powi (- 1 - 52)) = 5404319552844596"
    using roundHalfEven_tie [of "?x / 2 powi (- 1 - 52)" 5404319552844595]
    by (simp add: threeTenths_def power_int_minus)
  have "roundDouble ?x = Fin (of_int 5404319552844596 * 2 powi (- 1 - 52))"
    by (rule roundDouble_eq [OF _ _ _ r]) (simp_all add: threeTenths_def power_int_minus)
  then show ?thesis by (simp add: power_int_minus)
qed

lemma threeTenths_fifth: "numAdd (Fin threeTenths) (Fin fifth) = Fin (1 / 2)"
proof -
  have r: "roundHalfEven ((threeTenths + fifth) / 2 powi (- 1 - 52)) = 4503599627370496"
    using roundHalfEven_of_int [of 4503599627370496]
    by (simp add: threeTenths_def fifth_def power_int_minus)
  have "roundDouble (threeTenths + fifth) = Fin (of_int 4503599627370496 * 2 powi (- 1 - 52))"
    by (rule roundDouble_eq [OF _ _ _ r])
       (simp_all add: threeTenths_def fifth_def power_int_minus)
  then show ?thesis by (simp add: power_int_minus)
qed

lemma threeTenths_fifth_tenth:
  "numAdd (Fin (1 / 2)) (Fin tenth) = Fin (5404319552844595 / 9007199254740992)"
proof -
  let ?x = "1 / 2 + tenth"
  have r: "roundHalfEven (?x / 2 powi (- 1 - 52)) = 5404319552844595"
    by (rule roundHalfEven_below) (simp_all add: tenth_def power_int_minus)
  have "roundDouble ?x = Fin (of_int 5404319552844595 * 2 powi (- 1 - 52))"
    by (rule roundDouble_eq [OF _ _ _ r]) (simp_all add: tenth_def power_int_minus)
  then show ?thesis by (simp add: power_int_minus)
qed

text \<open>The sums of \<open>2 ^ 53\<close>, 1 and 1, in this order and with \<open>2 ^ 53\<close> last.\<close>

lemma big_exact: "numAdd (Fin 0) (Fin 9007199254740992) = Fin 9007199254740992"
  by (simp add: roundDouble_numeral)

lemma big_1: "numAdd (Fin 9007199254740992) (Fin 1) = Fin 9007199254740992"
proof -
  have r: "roundHalfEven ((9007199254740992 + 1) / 2 powi (53 - 52)) = 4503599627370496"
    using roundHalfEven_tie [of "(9007199254740992 + 1) / 2 powi (53 - 52)" 4503599627370496]
    by simp
  have "roundDouble (9007199254740992 + 1) = Fin (of_int 4503599627370496 * 2 powi (53 - 52))"
    by (rule roundDouble_eq [OF _ _ _ r]) simp_all
  then show ?thesis by simp
qed

lemma two_big: "numAdd (Fin 2) (Fin 9007199254740992) = Fin 9007199254740994"
proof -
  have r: "roundHalfEven ((2 + 9007199254740992) / 2 powi (53 - 52)) = 4503599627370497"
    using roundHalfEven_of_int [of 4503599627370497] by simp
  have "roundDouble (2 + 9007199254740992) = Fin (of_int 4503599627370497 * 2 powi (53 - 52))"
    by (rule roundDouble_eq [OF _ _ _ r]) simp_all
  then show ?thesis by simp
qed

lemma days_123:
  "numAdd (Fin 0) (Fin 1) = Fin 1" "numAdd (Fin 1) (Fin 1) = Fin 2"
  "numAdd (Fin 2) (Fin 1) = Fin 3"
  by (simp_all add: roundDouble_1 roundDouble_numeral)

text \<open>
  C5, as the code has it. For every sequence of payments, \<open>daysPaid\<close> and \<open>paymentTotal\<close>
  are the sums, added from 0 in the order of the sequence and rounded at each step, of the
  days and of the amounts of exactly the payments whose status is in the active list; the
  empty sequence gives 0 and 0. When the days and the amounts of the active payments are
  whole numbers whose magnitudes sum to at most \<open>2 ^ 53\<close>, the two results are the exact
  sums, and every permutation of the sequence gives the same result.
\<close>

theorem aggregate_sums:
  fixes active :: "string list" and ps :: "payment list"
  defines "A \<equiv> [p \<leftarrow> ps. status p \<in> set active]"
  shows "aggregate active ps
           = (foldl numAdd (Fin 0) (map days A), foldl numAdd (Fin 0) (map amount A)) \<and>
         aggregate active [] = (Fin 0, Fin 0) \<and>
         (safeIntegers (map days A) \<and> safeIntegers (map amount A) \<longrightarrow>
            aggregate active ps
              = (Fin (sum_list (map (valueOf \<circ> days) A)),
                 Fin (sum_list (map (valueOf \<circ> amount) A))) \<and>
            (mset qs = mset ps \<longrightarrow> aggregate active qs = aggregate active ps))"
proof (intro conjI impI)
  show "aggregate active ps
          = (foldl numAdd (Fin 0) (map days A), foldl numAdd (Fin 0) (map amount A))"
    unfolding A_def by (rule aggregate_eq)
  show "aggregate active [] = (Fin 0, Fin 0)" by (simp add: aggregate_def)
next
  assume s: "safeIntegers (map days A) \<and> safeIntegers (map amount A)"
  then show "aggregate active ps
              = (Fin (sum_list (map (valueOf \<circ> days) A)),
                 Fin (sum_list (map (valueOf \<circ> amount) A)))"
    unfolding A_def by (intro aggregate_safe) simp_all
  assume "mset qs = mset ps"
  with s show "aggregate active qs = aggregate active ps"
    unfolding A_def by (intro aggregate_permuted) simp_all
qed

text \<open>
  An active payment of 5 days and 500 with a cancelled one of 3 days and 300, in both
  orders: 5 days and 500.
\<close>

theorem aggregate_sums_witness:
  "aggregate [''Active'']
     [\<lparr>workPeriodId = ''wp1'', status = ''Active'', days = Fin 5, amount = Fin 500\<rparr>,
      \<lparr>workPeriodId = ''wp1'', status = ''Cancelled'', days = Fin 3, amount = Fin 300\<rparr>]
     = (Fin 5, Fin 500) \<and>
   aggregate [''Active'']
     [\<lparr>workPeriodId = ''wp1'', status = ''Cancelled'', days = Fin 3, amount = Fin 300\<rparr>,
      \<lparr>workPeriodId = ''wp1'', status = ''Active'', days = Fin 5, amount = Fin 500\<rparr>]
     = (Fin 5, Fin 500)"
proof -
  let ?a = "\<lparr>workPeriodId = ''wp1'', status = ''Active'', days = Fin 5, amount = Fin 500\<rparr>"
  let ?c = "\<lparr>workPeriodId = ''wp1'', status = ''Cancelled'', days = Fin 3, amount = Fin 300\<rparr>"
  have i: "isInteger 5" "isInteger 500"
    using isInteger_of_int [of 5] isInteger_of_int [of 500] by simp_all
  have s: "safeIntegers (map days [p \<leftarrow> [?a, ?c]. status p \<in> set [''Active'']])"
    "safeIntegers (map amount [p \<leftarrow> [?a, ?c]. status p \<in> set [''Active'']])"
    by (simp_all add: safeIntegers_def i)
  have p: "mset [?c, ?a] = mset [?a, ?c]" by (simp add: add_mset_commute)
  from aggregate_sums [of "[''Active'']" "[?a, ?c]" "[?c, ?a]"] s
  have "aggregate [''Active''] [?a, ?c]
          = (Fin (sum_list (map (valueOf \<circ> days) [p \<leftarrow> [?a, ?c]. status p \<in> set [''Active'']])),
             Fin (sum_list (map (valueOf \<circ> amount) [p \<leftarrow> [?a, ?c]. status p \<in> set [''Active'']])))"
    by blast
  then have 1: "aggregate [''Active''] [?a, ?c] = (Fin 5, Fin 500)" by simp
  from aggregate_sums [of "[''Active'']" "[?a, ?c]" "[?c, ?a]"] s p
  have 2: "aggregate [''Active''] [?c, ?a] = aggregate [''Active''] [?a, ?c]" by blast
  from 1 2 show ?thesis by simp
qed

text \<open>
  Three active payments with the amounts 0.1, 0.2 and 0.3: in this order the total is
  0.6000000000000001, in the reverse order it is 0.6, and the sum of the three amounts is
  neither. Three with the whole amounts \<open>2 ^ 53\<close>, 1 and 1: in this order the total is
  \<open>2 ^ 53\<close>, with the large amount last it is the sum, \<open>2 ^ 53 + 2\<close>.
\<close>

theorem aggregate_order_counterexample:
  "aggregate [''completed''] [amountPayment tenth, amountPayment fifth, amountPayment threeTenths]
     = (Fin 3, Fin (1351079888211149 / 2251799813685248)) \<and>
   aggregate [''completed''] [amountPayment threeTenths, amountPayment fifth, amountPayment tenth]
     = (Fin 3, Fin (5404319552844595 / 9007199254740992)) \<and>
   mset [amountPayment threeTenths, amountPayment fifth, amountPayment tenth]
     = mset [amountPayment tenth, amountPayment fifth, amountPayment threeTenths] \<and>
   tenth + fifth + threeTenths = 21617278211378381 / 36028797018963968 \<and>
   aggregate [''completed'']
     [amountPayment 9007199254740992, amountPayment 1, amountPayment 1]
     = (Fin 3, Fin 9007199254740992) \<and>
   aggregate [''completed'']
     [amountPayment 1, amountPayment 1, amountPayment 9007199254740992]
     = (Fin 3, Fin 9007199254740994) \<and>
   mset [amountPayment 1, amountPayment 1, amountPayment 9007199254740992]
     = mset [amountPayment 9007199254740992, amountPayment 1, amountPayment 1]"
proof -
  have 1: "aggregate [''completed'']
             [amountPayment tenth, amountPayment fifth, amountPayment threeTenths]
           = (Fin 3, Fin (1351079888211149 / 2251799813685248))"
    unfolding aggregate_eq
    by (simp add: amountPayment_def del: numAdd.simps)
       (simp only: days_123 tenth_exact tenth_fifth tenth_fifth_threeTenths)
  have 2: "aggregate [''completed'']
             [amountPayment threeTenths, amountPayment fifth, amountPayment tenth]
           = (Fin 3, Fin (5404319552844595 / 9007199254740992))"
    unfolding aggregate_eq
    by (simp add: amountPayment_def del: numAdd.simps)
       (simp only: days_123 threeTenths_exact threeTenths_fifth threeTenths_fifth_tenth)
  have 3: "mset [amountPayment threeTenths, amountPayment fifth, amountPayment tenth]
             = mset [amountPayment tenth, amountPayment fifth, amountPayment threeTenths]"
    by (simp add: add_mset_commute)
  have 4: "tenth + fifth + threeTenths = 21617278211378381 / 36028797018963968"
    by (simp add: tenth_def fifth_def threeTenths_def)
  have 5: "aggregate [''completed'']
             [amountPayment 9007199254740992, amountPayment 1, amountPayment 1]
           = (Fin 3, Fin 9007199254740992)"
    unfolding aggregate_eq
    by (simp add: amountPayment_def del: numAdd.simps)
       (simp only: days_123 big_exact big_1)
  have 6: "aggregate [''completed'']
             [amountPayment 1, amountPayment 1, amountPayment 9007199254740992]
           = (Fin 3, Fin 9007199254740994)"
    unfolding aggregate_eq
    by (simp add: amountPayment_def del: numAdd.simps)
       (simp only: days_123 two_big)
  have 7: "mset [amountPayment 1, amountPayment 1, amountPayment 9007199254740992]
             = mset [amountPayment 9007199254740992, amountPayment 1, amountPayment 1]"
    by (simp add: add_mset_commute)
  from 1 2 3 4 5 6 7 show ?thesis by blast
qed

lemma updateWorkPeriod_unchanged:
  assumes "findById st (workPeriodId payload) = Inr w" and "unchanged w (recompute e w)"
  shows "updateWorkPeriod e st payload = Inr st"
  using assms by (simp add: updateWorkPeriod_def unchanged_def Let_def)

lemma updateWorkPeriod_changed:
  assumes "findById st (workPeriodId payload) = Inr w" and "\<not> unchanged w (recompute e w)"
  shows "updateWorkPeriod e st payload =
     Inr (postEvent (TAAS_WORK_PERIOD_UPDATE_TOPIC e) (omitPayments (applyData (recompute e w) w))
            \<lparr>oldValue = w, key = ''resourceBooking.id:'' @ resourceBookingId w\<rparr>
            (st\<lparr>workPeriods :=
                  AList.update (workPeriodId payload) (omitPayments (applyData (recompute e w) w))
                    (workPeriods st),
                updates := updates st @ [(workPeriodId payload, recompute e w)]\<rparr>))"
  using assms by (auto simp: updateWorkPeriod_def unchanged_def Let_def)

lemma findById_Inr:
  "findById st i = Inr w \<longleftrightarrow>
     (\<exists>wp. map_of (workPeriods st) i = Some wp \<and>
        w = workPeriod.extend wp
              (workPeriodJSON.fields [p \<leftarrow> workPeriodPayments st. workPeriodId p = i]))"
  by (auto simp: findById_def split: option.splits)

lemma extend_omitPayments:
  "workPeriod.extend (omitPayments w) (workPeriodJSON.fields (payments w)) = w"
  by (simp add: omitPayments_def workPeriod.defs workPeriodJSON.defs)

lemma payments_findById:
  "findById st i = Inr w \<Longrightarrow> payments w = [p \<leftarrow> workPeriodPayments st. workPeriodId p = i]"
  by (auto simp: findById_Inr workPeriod.defs workPeriodJSON.defs)

lemma aggregate_fields:
  "daysPaid (recompute e w) = fst (aggregate (ActiveWorkPeriodPaymentStatuses e) (payments w))"
  "paymentTotal (recompute e w) = snd (aggregate (ActiveWorkPeriodPaymentStatuses e) (payments w))"
  "paymentStatus (recompute e w) =
     calculateWorkPeriodPaymentStatus e
       (w\<lparr>daysPaid := fst (aggregate (ActiveWorkPeriodPaymentStatuses e) (payments w)),
          paymentTotal := snd (aggregate (ActiveWorkPeriodPaymentStatuses e) (payments w))\<rparr>)"
  by (simp_all add: recompute_def split: prod.splits)

lemma findById_after_update:
  assumes "findById st i = Inr w"
  shows "findById
           (postEvent t pl opts
              (st\<lparr>workPeriods := AList.update i (omitPayments (applyData d w)) (workPeriods st),
                  updates := u\<rparr>)) i
         = Inr (applyData d w)"
proof -
  from assms have p: "payments w = [p \<leftarrow> workPeriodPayments st. workPeriodId p = i]"
    by (rule payments_findById)
  have "payments (applyData d w) = payments w" by (simp add: applyData_def)
  with p extend_omitPayments [of "applyData d w"] show ?thesis
    by (simp add: findById_def postEvent_def update_conv')
qed

text \<open>
  After a write the stored sums are the recomputed ones, and they compare equal to
  themselves unless they are NaN; the status is recomputed from a period that carries the
  status just stored.
\<close>

lemma unchanged_after_update:
  assumes stable: "\<forall>v. calculateWorkPeriodPaymentStatus e
                       (v\<lparr>paymentStatus := calculateWorkPeriodPaymentStatus e v\<rparr>)
                     = calculateWorkPeriodPaymentStatus e v"
    and n: "daysPaid (recompute e w) \<noteq> NaN" "paymentTotal (recompute e w) \<noteq> NaN"
  shows "unchanged (applyData (recompute e w) w) (recompute e (applyData (recompute e w) w))"
proof -
  let ?A = "aggregate (ActiveWorkPeriodPaymentStatuses e) (payments w)"
  let ?v = "w\<lparr>daysPaid := fst ?A, paymentTotal := snd ?A\<rparr>"
  let ?w1 = "applyData (recompute e w) w"
  have p: "payments ?w1 = payments w" by (simp add: applyData_def)
  have "?w1\<lparr>daysPaid := fst ?A, paymentTotal := snd ?A\<rparr>
          = ?v\<lparr>paymentStatus := calculateWorkPeriodPaymentStatus e ?v\<rparr>"
    by (simp add: applyData_def aggregate_fields)
  with stable have s: "calculateWorkPeriodPaymentStatus e
                       (?w1\<lparr>daysPaid := fst ?A, paymentTotal := snd ?A\<rparr>)
                     = calculateWorkPeriodPaymentStatus e ?v"
    by simp
  from n have "strictEq (fst ?A) (fst ?A)" "strictEq (snd ?A) (snd ?A)"
    by (simp_all add: aggregate_fields strictEq_refl)
  with s show ?thesis
    by (simp add: unchanged_def aggregate_fields p) (simp add: applyData_def aggregate_fields)
qed

text \<open>A total that is NaN compares equal to nothing: the pass writes.\<close>

lemma nan_total_changed: "paymentTotal d = NaN \<Longrightarrow> \<not> unchanged w d"
  by (simp add: unchanged_def strictEq_iff)

text \<open>
  So two runs in succession both write and both post an event when the total is NaN,
  whatever the status function.
\<close>

lemma nan_total_writes_twice:
  assumes f: "findById st (workPeriodId payload) = Inr w"
    and t: "paymentTotal (recompute e w) = NaN"
  shows "\<exists>st2. runTwice e st payload = Inr st2 \<and>
           updates st2 = updates st @
             [(workPeriodId payload, recompute e w),
              (workPeriodId payload, recompute e (applyData (recompute e w) w))] \<and>
           map fst (bus st2) = map fst (bus st) @
             [TAAS_WORK_PERIOD_UPDATE_TOPIC e, TAAS_WORK_PERIOD_UPDATE_TOPIC e]"
proof -
  let ?d = "recompute e w"
  let ?w1 = "applyData ?d w"
  let ?st1 = "postEvent (TAAS_WORK_PERIOD_UPDATE_TOPIC e) (omitPayments ?w1)
            \<lparr>oldValue = w, key = ''resourceBooking.id:'' @ resourceBookingId w\<rparr>
            (st\<lparr>workPeriods :=
                  AList.update (workPeriodId payload) (omitPayments ?w1) (workPeriods st),
                updates := updates st @ [(workPeriodId payload, ?d)]\<rparr>)"
  let ?d1 = "recompute e ?w1"
  have p: "payments ?w1 = payments w" by (simp add: applyData_def)
  from t have t1: "paymentTotal ?d1 = NaN" by (simp only: aggregate_fields p)
  have first: "updateWorkPeriod e st payload = Inr ?st1"
    by (rule updateWorkPeriod_changed [OF f nan_total_changed [OF t]])
  have f1: "findById ?st1 (workPeriodId payload) = Inr ?w1"
    by (rule findById_after_update [OF f])
  have two: "runTwice e st payload = updateWorkPeriod e ?st1 payload"
    by (simp add: runTwice_def first)
  show ?thesis
    unfolding two updateWorkPeriod_changed [OF f1 nan_total_changed [OF t1]]
    by (simp add: postEvent_def)
qed

lemma omitPayments_fields:
  "daysPaid (omitPayments (applyData d w)) = daysPaid d"
  "paymentTotal (omitPayments (applyData d w)) = paymentTotal d"
  "paymentStatus (omitPayments (applyData d w)) = paymentStatus d"
  "resourceBookingId (omitPayments (applyData d w)) = resourceBookingId w"
  "daysWorked (omitPayments (applyData d w)) = daysWorked w"
  by (simp_all add: omitPayments_def applyData_def workPeriod.defs)

lemma sample_find:
  "findById (sampleState (sampleRow dp pt ps) [samplePayment, samplePayment]) ''wp1''
     = Inr (workPeriod.extend (sampleRow dp pt ps)
              (workPeriodJSON.fields [samplePayment, samplePayment]))"
  "findById (sampleState (sampleRow dp pt ps) [samplePayment]) ''wp1''
     = Inr (workPeriod.extend (sampleRow dp pt ps) (workPeriodJSON.fields [samplePayment]))"
  by (simp_all add: findById_def sampleState_def samplePayment_def)

lemma sample_recompute:
  "recompute (sampleEnv policy)
     (workPeriod.extend (sampleRow dp pt ps) (workPeriodJSON.fields [samplePayment, samplePayment]))
   = \<lparr>daysPaid = Fin 10, paymentTotal = Fin 1000,
      paymentStatus = policy (workPeriod.extend (sampleRow (Fin 10) (Fin 1000) ps)
                                (workPeriodJSON.fields [samplePayment, samplePayment]))\<rparr>"
  "recompute (sampleEnv policy)
     (workPeriod.extend (sampleRow dp pt ps) (workPeriodJSON.fields [samplePayment]))
   = \<lparr>daysPaid = Fin 5, paymentTotal = Fin 500,
      paymentStatus = policy (workPeriod.extend (sampleRow (Fin 5) (Fin 500) ps)
                                (workPeriodJSON.fields [samplePayment]))\<rparr>"
  by (simp_all add: recompute_def aggregate_def sampleEnv_def samplePayment_def sampleRow_def
      workPeriod.defs workPeriodJSON.defs roundDouble_numeral)

lemma sample_status:
  "statusByDays (workPeriod.extend (sampleRow (Fin 10) (Fin 1000) ps) m) = ''partially-completed''"
  "statusByDays (workPeriod.extend (sampleRow (Fin 5) (Fin 500) ps) m) = ''partially-completed''"
  by (simp_all add: statusByDays_def sampleRow_def workPeriod.defs)

lemma statusByDays_stable:
  "\<forall>v. calculateWorkPeriodPaymentStatus (sampleEnv statusByDays)
          (v\<lparr>paymentStatus := calculateWorkPeriodPaymentStatus (sampleEnv statusByDays) v\<rparr>)
        = calculateWorkPeriodPaymentStatus (sampleEnv statusByDays) v"
  by (simp add: sampleEnv_def statusByDays_def)

text \<open>
  C1. In a pass of \<open>processCreate\<close> or \<open>processUpdate\<close> where the recomputed \<open>daysPaid\<close>,
  \<open>paymentTotal\<close> and \<open>paymentStatus\<close> equal the values stored on the period, as \<^verbatim>\<open>===\<close>
  compares them, the handler returns with the state it started from: no call of \<open>update\<close>,
  no event, the stored period as it was.
\<close>

theorem unchanged_pass:
  assumes "findById st (workPeriodId payload) = Inr w"
    and "strictEq (daysPaid w) (daysPaid (recompute e w))"
    and "strictEq (paymentTotal w) (paymentTotal (recompute e w))"
    and "paymentStatus (recompute e w) = paymentStatus w"
  shows "processCreate e st payload = Inr st \<and> processUpdate e st payload = Inr st"
  using updateWorkPeriod_unchanged [OF assms(1), of e] assms(2-4)
  by (simp add: processCreate_def processUpdate_def unchanged_def)

text \<open>
  A period stored with 5 days, 500 and partially completed, and one active payment of 5
  days and 500.
\<close>

theorem unchanged_pass_witness:
  "processCreate (sampleEnv statusByDays)
     (sampleState (sampleRow (Fin 5) (Fin 500) ''partially-completed'') [samplePayment])
     samplePayment
     = Inr (sampleState (sampleRow (Fin 5) (Fin 500) ''partially-completed'') [samplePayment]) \<and>
   processUpdate (sampleEnv statusByDays)
     (sampleState (sampleRow (Fin 5) (Fin 500) ''partially-completed'') [samplePayment])
     samplePayment
     = Inr (sampleState (sampleRow (Fin 5) (Fin 500) ''partially-completed'') [samplePayment])"
proof -
  let ?st = "sampleState (sampleRow (Fin 5) (Fin 500) ''partially-completed'') [samplePayment]"
  let ?w = "workPeriod.extend (sampleRow (Fin 5) (Fin 500) ''partially-completed'')
              (workPeriodJSON.fields [samplePayment])"
  have f: "findById ?st (workPeriodId samplePayment) = Inr ?w"
    using sample_find(2) by (simp add: samplePayment_def)
  have r: "recompute (sampleEnv statusByDays) ?w
             = \<lparr>daysPaid = Fin 5, paymentTotal = Fin 500, paymentStatus = ''partially-completed''\<rparr>"
    by (simp add: sample_recompute sample_status)
  have w: "daysPaid ?w = Fin 5" "paymentTotal ?w = Fin 500"
    "paymentStatus ?w = ''partially-completed''"
    by (simp_all add: sampleRow_def workPeriod.defs)
  show ?thesis
    by (rule unchanged_pass [OF f]) (simp_all add: r w)
qed

text \<open>
  C3, as the code has it. In a pass where one of the three recomputed values differs from
  the stored one, the handler calls \<open>update\<close> once, with \<open>data\<close> holding all three recomputed
  fields (also those equal to the stored values) and no other field; afterwards the period
  is stored with these three values and its other attributes as before, the other periods
  and the payments are as before; and one event is posted on the update topic: its payload
  is the new period without its payments, its \<open>oldValue\<close> is the period as it was loaded, and
  its \<open>key\<close> is the text \<^verbatim>\<open>resourceBooking.id:\<close> followed by the period's \<open>resourceBookingId\<close>.
\<close>

theorem persisted_pass:
  assumes "findById st (workPeriodId payload) = Inr w"
    and "\<not> unchanged w (recompute e w)"
  shows "\<exists>st' snapshot.
           processCreate e st payload = Inr st' \<and> processUpdate e st payload = Inr st' \<and>
           snapshot = omitPayments (applyData (recompute e w) w) \<and>
           daysPaid snapshot = daysPaid (recompute e w) \<and>
           paymentTotal snapshot = paymentTotal (recompute e w) \<and>
           paymentStatus snapshot = paymentStatus (recompute e w) \<and>
           resourceBookingId snapshot = resourceBookingId w \<and>
           daysWorked snapshot = daysWorked w \<and>
           updates st' = updates st @ [(workPeriodId payload, recompute e w)] \<and>
           dataKeys (recompute e w) = [''daysPaid'', ''paymentTotal'', ''paymentStatus''] \<and>
           map_of (workPeriods st') (workPeriodId payload) = Some snapshot \<and>
           (\<forall>j. j \<noteq> workPeriodId payload \<longrightarrow>
                map_of (workPeriods st') j = map_of (workPeriods st) j) \<and>
           workPeriodPayments st' = workPeriodPayments st \<and>
           bus st' = bus st @ [(TAAS_WORK_PERIOD_UPDATE_TOPIC e, snapshot)] \<and>
           dispatched st' = dispatched st @
             [(TAAS_WORK_PERIOD_UPDATE_TOPIC e, snapshot,
               \<lparr>oldValue = w, key = ''resourceBooking.id:'' @ resourceBookingId w\<rparr>)]"
proof -
  let ?d = "recompute e w"
  let ?n = "omitPayments (applyData ?d w)"
  let ?st' = "postEvent (TAAS_WORK_PERIOD_UPDATE_TOPIC e) ?n
            \<lparr>oldValue = w, key = ''resourceBooking.id:'' @ resourceBookingId w\<rparr>
            (st\<lparr>workPeriods := AList.update (workPeriodId payload) ?n (workPeriods st),
                updates := updates st @ [(workPeriodId payload, ?d)]\<rparr>)"
  have run: "updateWorkPeriod e st payload = Inr ?st'"
    by (rule updateWorkPeriod_changed [OF assms])
  have 1: "processCreate e st payload = Inr ?st'" "processUpdate e st payload = Inr ?st'"
    using run by (simp_all add: processCreate_def processUpdate_def)
  have 2: "updates ?st' = updates st @ [(workPeriodId payload, ?d)]"
    "workPeriodPayments ?st' = workPeriodPayments st"
    "bus ?st' = bus st @ [(TAAS_WORK_PERIOD_UPDATE_TOPIC e, ?n)]"
    "dispatched ?st' = dispatched st @
             [(TAAS_WORK_PERIOD_UPDATE_TOPIC e, ?n,
               \<lparr>oldValue = w, key = ''resourceBooking.id:'' @ resourceBookingId w\<rparr>)]"
    by (simp_all add: postEvent_def)
  have 3: "map_of (workPeriods ?st') (workPeriodId payload) = Some ?n"
    "\<forall>j. j \<noteq> workPeriodId payload \<longrightarrow> map_of (workPeriods ?st') j = map_of (workPeriods st) j"
    by (simp_all add: postEvent_def update_conv')
  have 4: "dataKeys ?d = [''daysPaid'', ''paymentTotal'', ''paymentStatus'']"
    by (simp add: dataKeys_def)
  from 1 2 3 4 omitPayments_fields [of ?d w] show ?thesis by blast
qed

text \<open>
  The period stored with 5 days and 500, and a second payment that brings the sums to 10
  days and 1000.
\<close>

theorem persisted_pass_witness:
  "map_sum id updates
     (processCreate (sampleEnv statusByDays)
        (sampleState (sampleRow (Fin 5) (Fin 500) ''partially-completed'')
           [samplePayment, samplePayment])
        samplePayment)
     = Inr [(''wp1'', \<lparr>daysPaid = Fin 10, paymentTotal = Fin 1000,
                       paymentStatus = ''partially-completed''\<rparr>)] \<and>
   map_sum id dispatched
     (processCreate (sampleEnv statusByDays)
        (sampleState (sampleRow (Fin 5) (Fin 500) ''partially-completed'')
           [samplePayment, samplePayment])
        samplePayment)
     = Inr [(''taas.workperiod.update'', sampleRow (Fin 10) (Fin 1000) ''partially-completed'',
             \<lparr>oldValue = workPeriod.extend (sampleRow (Fin 5) (Fin 500) ''partially-completed'')
                           (workPeriodJSON.fields [samplePayment, samplePayment]),
              key = ''resourceBooking.id:rb1''\<rparr>)]"
proof -
  let ?e = "sampleEnv statusByDays"
  let ?st = "sampleState (sampleRow (Fin 5) (Fin 500) ''partially-completed'')
               [samplePayment, samplePayment]"
  let ?w = "workPeriod.extend (sampleRow (Fin 5) (Fin 500) ''partially-completed'')
              (workPeriodJSON.fields [samplePayment, samplePayment])"
  have f: "findById ?st (workPeriodId samplePayment) = Inr ?w"
    using sample_find(1) by (simp add: samplePayment_def)
  have r: "recompute ?e ?w
             = \<lparr>daysPaid = Fin 10, paymentTotal = Fin 1000,
                paymentStatus = ''partially-completed''\<rparr>"
    by (simp add: sample_recompute sample_status)
  have n: "\<not> unchanged ?w (recompute ?e ?w)"
    unfolding r by (simp add: unchanged_def sampleRow_def workPeriod.defs)
  have s: "omitPayments
             (applyData \<lparr>daysPaid = Fin 10, paymentTotal = Fin 1000,
                          paymentStatus = ''partially-completed''\<rparr> ?w)
             = sampleRow (Fin 10) (Fin 1000) ''partially-completed''"
    by (simp add: omitPayments_def applyData_def sampleRow_def workPeriod.defs)
  have k: "resourceBookingId ?w = ''rb1''" "workPeriodId samplePayment = ''wp1''"
    by (simp_all add: sampleRow_def samplePayment_def workPeriod.defs)
  have t: "TAAS_WORK_PERIOD_UPDATE_TOPIC ?e = ''taas.workperiod.update''"
    "updates ?st = []" "dispatched ?st = []"
    by (simp_all add: sampleEnv_def sampleState_def)
  from persisted_pass [OF f n] obtain st' where
    "processCreate ?e ?st samplePayment = Inr st'"
    "updates st' = updates ?st @ [(workPeriodId samplePayment, recompute ?e ?w)]"
    "dispatched st' = dispatched ?st @
       [(TAAS_WORK_PERIOD_UPDATE_TOPIC ?e, omitPayments (applyData (recompute ?e ?w) ?w),
         \<lparr>oldValue = ?w, key = ''resourceBooking.id:'' @ resourceBookingId ?w\<rparr>)]"
    by blast
  then show ?thesis by (simp add: r s k t)
qed

text \<open>
  In that pass the status stays partially completed: the changed fields are \<open>daysPaid\<close>
  and \<open>paymentTotal\<close>, and the \<open>data\<close> passed to \<open>update\<close> holds \<open>paymentStatus\<close> as well.
  The key of the event is \<^verbatim>\<open>resourceBooking.id:rb1\<close>, where the identifier is \<^verbatim>\<open>rb1\<close>.
\<close>

theorem update_carries_unchanged_field_counterexample:
  "changedFields
     (workPeriod.extend (sampleRow (Fin 5) (Fin 500) ''partially-completed'')
        (workPeriodJSON.fields [samplePayment, samplePayment]))
     \<lparr>daysPaid = Fin 10, paymentTotal = Fin 1000, paymentStatus = ''partially-completed''\<rparr>
     = [''daysPaid'', ''paymentTotal''] \<and>
   dataKeys \<lparr>daysPaid = Fin 10, paymentTotal = Fin 1000, paymentStatus = ''partially-completed''\<rparr>
     = [''daysPaid'', ''paymentTotal'', ''paymentStatus''] \<and>
   findById (sampleState (sampleRow (Fin 5) (Fin 500) ''partially-completed'')
               [samplePayment, samplePayment])
       ''wp1''
     = Inr (workPeriod.extend (sampleRow (Fin 5) (Fin 500) ''partially-completed'')
              (workPeriodJSON.fields [samplePayment, samplePayment])) \<and>
   map_sum id updates
     (updateWorkPeriod (sampleEnv statusByDays)
        (sampleState (sampleRow (Fin 5) (Fin 500) ''partially-completed'')
           [samplePayment, samplePayment])
        samplePayment)
     = Inr [(''wp1'', \<lparr>daysPaid = Fin 10, paymentTotal = Fin 1000,
                       paymentStatus = ''partially-completed''\<rparr>)] \<and>
   resourceBookingId (sampleRow (Fin 5) (Fin 500) ''partially-completed'') = ''rb1'' \<and>
   map_sum id (map (\<lambda>(topic, payload, opts). key opts) \<circ> dispatched)
     (updateWorkPeriod (sampleEnv statusByDays)
        (sampleState (sampleRow (Fin 5) (Fin 500) ''partially-completed'')
           [samplePayment, samplePayment])
        samplePayment)
     = Inr [''resourceBooking.id:rb1'']"
proof -
  let ?e = "sampleEnv statusByDays"
  let ?st = "sampleState (sampleRow (Fin 5) (Fin 500) ''partially-completed'')
               [samplePayment, samplePayment]"
  let ?w = "workPeriod.extend (sampleRow (Fin 5) (Fin 500) ''partially-completed'')
              (workPeriodJSON.fields [samplePayment, samplePayment])"
  have c: "changedFields ?w
             \<lparr>daysPaid = Fin 10, paymentTotal = Fin 1000, paymentStatus = ''partially-completed''\<rparr>
           = [''daysPaid'', ''paymentTotal'']"
    by (simp add: changedFields_def sampleRow_def workPeriod.defs)
  have f: "findById ?st (workPeriodId samplePayment) = Inr ?w"
    using sample_find(1) by (simp add: samplePayment_def)
  have r: "recompute ?e ?w
             = \<lparr>daysPaid = Fin 10, paymentTotal = Fin 1000,
                paymentStatus = ''partially-completed''\<rparr>"
    by (simp add: sample_recompute sample_status)
  have n: "\<not> unchanged ?w (recompute ?e ?w)"
    unfolding r by (simp add: unchanged_def sampleRow_def workPeriod.defs)
  have k: "workPeriodId samplePayment = ''wp1''" by (simp add: samplePayment_def)
  have t: "updates ?st = []" "dispatched ?st = []" by (simp_all add: sampleState_def)
  have b: "resourceBookingId ?w = ''rb1''"
    "resourceBookingId (sampleRow (Fin 5) (Fin 500) ''partially-completed'') = ''rb1''"
    by (simp_all add: sampleRow_def workPeriod.defs)
  have u: "map_sum id updates (updateWorkPeriod ?e ?st samplePayment)
             = Inr [(''wp1'', \<lparr>daysPaid = Fin 10, paymentTotal = Fin 1000,
                              paymentStatus = ''partially-completed''\<rparr>)]"
    unfolding updateWorkPeriod_changed [OF f n]
    by (simp add: r postEvent_def k t)
  have d: "map_sum id (map (\<lambda>(topic, payload, opts). key opts) \<circ> dispatched)
             (updateWorkPeriod ?e ?st samplePayment)
           = Inr [''resourceBooking.id:rb1'']"
    unfolding updateWorkPeriod_changed [OF f n]
    by (simp add: postEvent_def t b)
  from c u d b(2) sample_find(1) show ?thesis by (simp add: dataKeys_def)
qed




end
